theory Spec2Isabelle
  imports Main "HOL-Library.Sublist"
begin

section \<open>Configuration and construction (DumperConfig.Validate, NewDumper)\<close>

text \<open>
  A Go \<open>error\<close> is modelled by its message; \<open>fmt.Errorf("...: %w", err)\<close> puts the
  wrapped error's message after the prefix.
\<close>

type_synonym error = string

definition ErrMongoDumpNotFound :: error where
  "ErrMongoDumpNotFound = ''mongodump executable not found in PATH''"

text \<open>The struct \<open>DumperConfig\<close> without its logger handle.\<close>

record DumperConfig =
  MongoURI :: string
  Database :: string
  Environment :: string
  S3Endpoint :: string
  S3Region :: string
  S3Bucket :: string
  S3AccessKey :: string
  S3SecretKey :: string
  TempDir :: string

text \<open>
  What construction reads from the host: whether \<open>exec.LookPath("mongodump")\<close> finds the
  utility, the result of the AWS SDK's \<open>config.LoadDefaultConfig\<close>, and the result of
  \<open>os.MkdirAll(cfg.TempDir)\<close>.
\<close>

record host =
  LookPath_mongodump :: bool
  LoadDefaultConfig_err :: "error option"
  MkdirAll_TempDir_err :: "error option"

definition Validate :: "DumperConfig \<Rightarrow> host \<Rightarrow> error option" where
  "Validate c h =
     (if MongoURI c = [] then Some ''MongoDB URI is required''
      else if S3Endpoint c = [] \<or> S3Bucket c = [] \<or> S3AccessKey c = [] \<or> S3SecretKey c = []
        then Some ''S3 configuration is incomplete''
      else if \<not> LookPath_mongodump h then Some ErrMongoDumpNotFound
      else None)"

definition GetEnvironment :: "DumperConfig \<Rightarrow> string \<Rightarrow> string" where
  "GetEnvironment c defaultValue = (if Environment c = [] then defaultValue else Environment c)"

definition GetDatabase :: "DumperConfig \<Rightarrow> string \<Rightarrow> string" where
  "GetDatabase c defaultValue = (if Database c = [] then defaultValue else Database c)"

record S3Client =
  bucket :: string

record MongoDumper =
  md_config :: DumperConfig

record Dumper =
  config :: DumperConfig
  s3Client :: S3Client
  mongoDump :: MongoDumper

definition newS3ClientInternal :: "DumperConfig \<Rightarrow> host \<Rightarrow> error option" where
  "newS3ClientInternal c h =
     (case LoadDefaultConfig_err h of
        Some e \<Rightarrow> Some (''failed to configure S3 client: '' @ e)
      | None \<Rightarrow> None)"

definition NewS3Client :: "DumperConfig \<Rightarrow> host \<Rightarrow> error + S3Client" where
  "NewS3Client c h =
     (case newS3ClientInternal c h of
        Some e \<Rightarrow> Inl e
      | None \<Rightarrow> Inr \<lparr>bucket = S3Bucket c\<rparr>)"

definition NewMongoDumper :: "DumperConfig \<Rightarrow> host \<Rightarrow> error + MongoDumper" where
  "NewMongoDumper c h =
     (if \<not> LookPath_mongodump h then Inl ErrMongoDumpNotFound
      else Inr \<lparr>md_config = c\<rparr>)"

definition NewDumper :: "DumperConfig \<Rightarrow> host \<Rightarrow> error + Dumper" where
  "NewDumper c h =
     (case Validate c h of
        Some e \<Rightarrow> Inl e
      | None \<Rightarrow>
         (case NewS3Client c h of
            Inl e \<Rightarrow> Inl (''failed to create S3 client: '' @ e)
          | Inr s3 \<Rightarrow>
             (case NewMongoDumper c h of
                Inl e \<Rightarrow> Inl (''failed to create MongoDB dumper: '' @ e)
              | Inr md \<Rightarrow>
                 (case (if TempDir c \<noteq> [] then MkdirAll_TempDir_err h else None) of
                    Some e \<Rightarrow> Inl (''failed to create temp directory: '' @ e)
                  | None \<Rightarrow> Inr \<lparr>config = c, s3Client = s3, mongoDump = md\<rparr>))))"

definition config_error :: "DumperConfig \<Rightarrow> host \<Rightarrow> bool" where
  "config_error c h \<longleftrightarrow>
     MongoURI c = [] \<or> S3Endpoint c = [] \<or> S3Bucket c = [] \<or> S3AccessKey c = [] \<or>
     S3SecretKey c = [] \<or> \<not> LookPath_mongodump h"

section \<open>The dump stage (pkg/mongodb/dump.go: CreateDump)\<close>

subsection \<open>String helpers of the Go library, for a one-character separator\<close>

text \<open>\<open>strings.Contains(s, "c")\<close>.\<close>

definition Contains :: "string \<Rightarrow> char \<Rightarrow> bool" where
  "Contains s c \<longleftrightarrow> c \<in> set s"

text \<open>\<open>strings.Split(s, "c")\<close>: the pieces between the separators, one more than there
  are separators; the empty string gives one empty piece.\<close>

fun Split :: "string \<Rightarrow> char \<Rightarrow> string list" where
  "Split [] sep = [[]]"
| "Split (c # cs) sep =
     (if c = sep then [] # Split cs sep
      else (case Split cs sep of
              [] \<Rightarrow> [[c]]
            | w # ws \<Rightarrow> (c # w) # ws))"

text \<open>Element 0 of a slice; Go panics on an empty slice.\<close>

definition index0 :: "string list \<Rightarrow> string option" where
  "index0 xs = (case xs of [] \<Rightarrow> None | x # _ \<Rightarrow> Some x)"

text \<open>
  The test at the head of \<open>CreateDump\<close>:
  \<^verbatim>\<open>strings.Contains(uri, "?") && strings.Contains(uri, "/") &&
    len(strings.Split(strings.Split(uri, "?")[0], "/")) > 3\<close>.
  \<open>None\<close> stands for the index panic, which \<open>uriContainsDB_total\<close> below excludes.
\<close>

definition uriContainsDB :: "string \<Rightarrow> bool option" where
  "uriContainsDB uri =
     (if Contains uri (CHR ''?'') \<and> Contains uri (CHR ''/'')
      then (case index0 (Split uri (CHR ''?'')) of
              None \<Rightarrow> None
            | Some head \<Rightarrow> Some (length (Split head (CHR ''/'')) > 3))
      else Some False)"

text \<open>The argument vector handed to \<open>exec.CommandContext(ctx, "mongodump", args...)\<close>.\<close>

definition mongodump_args :: "DumperConfig \<Rightarrow> string \<Rightarrow> bool \<Rightarrow> string list" where
  "mongodump_args c outputPath uriHasDB =
     (let args = [''--uri'', MongoURI c, ''--out'', outputPath];
          args = (if Database c \<noteq> [] \<and> \<not> uriHasDB then args @ [''--db'', Database c] else args)
      in args @ [''--verbose''])"


text \<open>
  The specification's wording of the heuristic: the connection string has a query string
  (a \<open>?\<close>) and, before it, a path segment: at least three \<open>/\<close>, the two of \<open>scheme://\<close>
  and the one that opens the path.
\<close>

definition uri_embeds_database :: "string \<Rightarrow> bool" where
  "uri_embeds_database uri \<longleftrightarrow>
     CHR ''?'' \<in> set uri \<and>
     3 \<le> count_list (takeWhile (\<lambda>x. x \<noteq> CHR ''?'') uri) (CHR ''/'')"

subsection \<open>The dump tree and \<open>filepath.Walk\<close>\<close>

text \<open>
  What \<open>filepath.Walk\<close> can meet below a root: a file with its content, a directory with
  its entries in the order of the sorted listing, a name whose \<open>Lstat\<close> fails, a directory
  whose listing fails, and a file (of a given size) that cannot be opened. Each failure
  carries the error of the system call.
\<close>

datatype node =
    File string
  | Dir "(string \<times> node) list"
  | NoStat error
  | NoList error
  | NoOpen int error

fun IsDir :: "node \<Rightarrow> bool" where
  "IsDir (Dir es) = True"
| "IsDir (NoList e) = True"
| "IsDir n = False"

fun Size :: "node \<Rightarrow> int" where
  "Size (File c) = int (length c)"
| "Size (NoOpen n e) = n"
| "Size n = 0"

text \<open>\<open>filepath.Join(dir, name)\<close> on paths that need no cleaning (no empty, \<open>.\<close> or
  \<open>..\<close> element and no separator at the end).\<close>

definition Join :: "string \<Rightarrow> string \<Rightarrow> string" where
  "Join dir name = (if dir = [] then name else dir @ ''/'' @ name)"

text \<open>
  The walk calls \<open>fn(path, info, err)\<close> on every node; the callback reads and updates the
  variables it closes over (the state \<open>'s\<close>) and returns an error or nil. Any error returned
  ends the walk (none of the callbacks here returns \<open>SkipDir\<close>).
\<close>

type_synonym 's WalkFunc = "string \<Rightarrow> node \<Rightarrow> error option \<Rightarrow> 's \<Rightarrow> 's \<times> error option"

fun walk :: "'s WalkFunc \<Rightarrow> string \<Rightarrow> node \<Rightarrow> 's \<Rightarrow> 's \<times> error option"
  and walk_names :: "'s WalkFunc \<Rightarrow> string \<Rightarrow> (string \<times> node) list \<Rightarrow> 's \<Rightarrow> 's \<times> error option"
where
  "walk fn path (File c) s = fn path (File c) None s"
| "walk fn path (NoOpen n e) s = fn path (NoOpen n e) None s"
| "walk fn path (NoStat e) s = fn path (NoStat e) (Some e) s"
| "walk fn path (NoList e) s = fn path (NoList e) (Some e) s"
| "walk fn path (Dir es) s =
     (case fn path (Dir es) None s of
        (s', Some e) \<Rightarrow> (s', Some e)
      | (s', None) \<Rightarrow> walk_names fn path es s')"
| "walk_names fn path [] s = (s, None)"
| "walk_names fn path ((name, n) # es) s =
     (case walk fn (Join path name) n s of
        (s', Some e) \<Rightarrow> (s', Some e)
      | (s', None) \<Rightarrow> walk_names fn path es s')"

text \<open>\<open>filepath.Walk(root, fn)\<close>: \<open>Lstat\<close> of a missing root is reported to the callback.\<close>

definition Walk :: "node option \<Rightarrow> string \<Rightarrow> 's WalkFunc \<Rightarrow> 's \<Rightarrow> 's \<times> error option" where
  "Walk root path fn s =
     (case root of
        None \<Rightarrow> fn path (NoStat (''lstat '' @ path @ '': no such file or directory''))
                  (Some (''lstat '' @ path @ '': no such file or directory'')) s
      | Some n \<Rightarrow> walk fn path n s)"

text \<open>
  \<open>filepath.Ext\<close>: scanning from the end of the path up to the last separator, the suffix
  that starts at the first dot met, else the empty string.
\<close>

fun ext_scan :: "string \<Rightarrow> string \<Rightarrow> string" where
  "ext_scan [] acc = []"
| "ext_scan (c # cs) acc =
     (if c = CHR ''/'' then []
      else if c = CHR ''.'' then c # acc
      else ext_scan cs (c # acc))"

definition Ext :: "string \<Rightarrow> string" where
  "Ext path = ext_scan (rev path) []"

text \<open>The callback that counts collections and sums their sizes (CreateDump and Dump).\<close>

definition count_bson :: "(int \<times> int) WalkFunc" where
  "count_bson path info err st =
     (case err of
        Some e \<Rightarrow> (st, Some e)
      | None \<Rightarrow>
         (case st of (collectionCount, totalSize) \<Rightarrow>
            if \<not> IsDir info \<and> Ext path = ''.bson''
            then ((collectionCount + 1, totalSize + Size info), None)
            else (st, None)))"


subsection \<open>Reading the subprocess's standard output\<close>

definition is_digit :: "char \<Rightarrow> bool" where
  "is_digit c \<longleftrightarrow> c \<in> set ''0123456789''"

text \<open>
  \<open>regexp.MustCompile(`(\d+)%`).FindStringSubmatch(line)\<close>, element 1 of the result: the
  leftmost run of digits that a percent sign follows. The accumulator holds the digits of
  the run being read.
\<close>

fun scan_percent :: "string \<Rightarrow> string \<Rightarrow> string option" where
  "scan_percent acc [] = None"
| "scan_percent acc (c # cs) =
     (if is_digit c then scan_percent (acc @ [c]) cs
      else if c = CHR ''%'' \<and> acc \<noteq> [] then Some acc
      else scan_percent [] cs)"

definition progressRegex :: "string \<Rightarrow> string option" where
  "progressRegex line = scan_percent [] line"

text \<open>
  \<open>regexp.MustCompile(`writing ([^ ]+) to`).FindStringSubmatch(line)\<close>, element 1: at the
  leftmost place where \<open>writing\<close> and a blank are followed by a non-empty run without
  blanks and then by a blank and \<open>to\<close>, that run.
\<close>

fun collectionRegex :: "string \<Rightarrow> string option" where
  "collectionRegex [] = None"
| "collectionRegex (c # cs) =
     (if prefix ''writing '' (c # cs) \<and>
         takeWhile (\<lambda>x. x \<noteq> CHR '' '') (drop 8 (c # cs)) \<noteq> [] \<and>
         prefix '' to'' (dropWhile (\<lambda>x. x \<noteq> CHR '' '') (drop 8 (c # cs)))
      then Some (takeWhile (\<lambda>x. x \<noteq> CHR '' '') (drop 8 (c # cs)))
      else collectionRegex cs)"

text \<open>
  \<open>strconv.Atoi\<close> on a string of decimal digits: the value, or a range error above the
  largest 64-bit \<open>int\<close>.
\<close>

definition digit_val :: "char \<Rightarrow> int" where
  "digit_val c = int (of_char c) - 48"

definition Atoi :: "string \<Rightarrow> int option" where
  "Atoi ds =
     (let n = foldl (\<lambda>a c. 10 * a + digit_val c) 0 ds
      in if n \<le> 9223372036854775807 then Some n else None)"

text \<open>Addition of Go's 64-bit \<open>int\<close> wraps around.\<close>

definition wrap64 :: "int \<Rightarrow> int" where
  "wrap64 x = (x + 9223372036854775808) mod 18446744073709551616 - 9223372036854775808"

subsection \<open>Log entries, archives, the local and remote store\<close>

text \<open>
  The float64 value of \<open>float64(a) / float64(b)\<close> is kept as the division it comes from;
  \<open>F64_zero\<close> is the zero value of an unassigned variable. With \<open>b = 0\<close> IEEE 754 gives
  an infinity or a NaN, not a fault.
\<close>

datatype f64 = F64_zero | F64_div int int

text \<open>
  The entries the logger emits at level Info and above (the application's logger is built
  with level Info, so Debug entries are dropped). Fields that only render a size or a
  duration for reading are left out.
\<close>

datatype log_entry =
    Starting_dump string
  | Dumping_collection string
  | Dump_progress "string option" int
  | Dump_failed error string string
  | Stats_warning error
  | Dump_completed string int int
  | Starting_backup
  | No_environment
  | Backup_details string string
  | Step1_start
  | Step1_completed int int
  | Step2_start
  | Compression_completed int f64
  | Compression_completed_err error
  | Step3_start string
  | Uploading string string string int
  | Upload_progress string int int int
  | Uploaded string string int
  | Step3_completed
  | Step4_start
  | Remove_dir_warning string error
  | Remove_zip_warning string error
  | Step4_completed
  | Backup_completed string int int int f64

datatype zip_method = Store | Deflate

text \<open>
  One entry of a zip container: the header's name and method, and the bytes written
  through the entry's writer, which are what a reader of the entry gets back.
\<close>

record zip_entry =
  Name :: string
  Method :: zip_method
  Data :: string

text \<open>
  The local working directory holds dump trees and containers by path; the bucket holds
  uploaded containers by key.
\<close>

record state =
  trees :: "string \<rightharpoonup> node"
  zips :: "string \<rightharpoonup> zip_entry list"
  objects :: "string \<rightharpoonup> zip_entry list"
  log :: "log_entry list"

definition add_log :: "state \<Rightarrow> log_entry list \<Rightarrow> state" where
  "add_log st es = st\<lparr>log := log st @ es\<rparr>"

subsection \<open>What one run meets outside the program\<close>

text \<open>A reading of the clock, broken down into calendar fields.\<close>

record civil =
  Year :: nat
  Month :: nat
  Day :: nat
  Hour :: nat
  Minute :: nat
  Second :: nat

text \<open>
  One execution of the dump utility: whether it starts, the lines that the two scanners
  hand over (the reader of standard error is not waited for: its lines are those it has
  handed over when the buffer is read), the error of \<open>cmd.Wait()\<close> (nil for exit code 0),
  and what the utility leaves at the output path.
\<close>

record process =
  Start_err :: "error option"
  stdout_lines :: "string list"
  stderr_lines :: "string list"
  Wait_err :: "error option"
  output_tree :: node

text \<open>A call on the body that \<open>PutObject\<close> reads: \<open>Read\<close> with the count the file
  returned, \<open>Seek\<close> with offset and whence (\<open>io.SeekStart\<close> is 0).\<close>

datatype reader_call = Read int | Seek int int

record run_io =
  now_utc :: civil
  now_local :: civil
  MkdirAll_err :: "error option"
  Pipe_err :: "error option"
  mongodump :: "string list \<Rightarrow> process"
  Create_err :: "error option"
  Close_err :: "error option"
  zip_size :: int
  percent_f64 :: "int \<Rightarrow> int \<Rightarrow> int"
  PutObject_calls :: "reader_call list"
  PutObject_err :: "error option"
  RemoveAll_err :: "error option"
  Remove_err :: "error option"

subsection \<open>CreateDump\<close>

text \<open>One turn of the loop over the lines of standard output; the state is
  \<open>lastPercentage\<close>, \<open>currentCollection\<close> and the entries logged so far.\<close>

definition stdout_line :: "int \<times> string \<times> log_entry list \<Rightarrow> string \<Rightarrow> int \<times> string \<times> log_entry list" where
  "stdout_line st line =
     (case st of (lastPercentage, currentCollection, lg) \<Rightarrow>
        (case (case collectionRegex line of
                 Some c \<Rightarrow> (c, lg @ [Dumping_collection c])
               | None \<Rightarrow> (currentCollection, lg)) of
           (currentCollection, lg) \<Rightarrow>
             (case progressRegex line of
                None \<Rightarrow> (lastPercentage, currentCollection, lg)
              | Some ds \<Rightarrow>
                 (case Atoi ds of
                    None \<Rightarrow> (lastPercentage, currentCollection, lg)
                  | Some pct \<Rightarrow>
                     if pct \<ge> wrap64 (lastPercentage + 10) \<or> pct = 100
                     then (pct, currentCollection,
                           lg @ [Dump_progress
                                  (if currentCollection \<noteq> [] then Some currentCollection else None) pct])
                     else (lastPercentage, currentCollection, lg)))))"

definition scan_stdout :: "string list \<Rightarrow> int \<times> string \<times> log_entry list" where
  "scan_stdout lines = foldl stdout_line (0, [], []) lines"

text \<open>What a \<open>strings.Builder\<close> holds after \<open>WriteString(line + "\n")\<close> for every line.\<close>

definition buffer_lines :: "string list \<Rightarrow> string" where
  "buffer_lines lines = concat (map (\<lambda>l. l @ [CHR 0x0A]) lines)"

definition CreateDump :: "MongoDumper \<Rightarrow> run_io \<Rightarrow> string \<Rightarrow> state \<Rightarrow> error option \<times> state" where
  "CreateDump d io outputPath st0 =
     (let st = add_log st0 [Starting_dump outputPath] in
      case uriContainsDB (MongoURI (md_config d)) of
        None \<Rightarrow> (Some ''panic: index out of range'', st)
      | Some uriHasDB \<Rightarrow>
         (case MkdirAll_err io of
            Some e \<Rightarrow> (Some (''failed to create output directory: '' @ e), st)
          | None \<Rightarrow>
             (let st = st\<lparr>trees := (if trees st outputPath = None
                                      then (trees st)(outputPath \<mapsto> Dir [])
                                      else trees st)\<rparr>;
                  args = mongodump_args (md_config d) outputPath uriHasDB;
                  cmd = mongodump io args
              in case Pipe_err io of
                   Some e \<Rightarrow> (Some (''failed to set up command output capture: '' @ e), st)
                 | None \<Rightarrow>
                    (case Start_err cmd of
                       Some e \<Rightarrow> (Some (''failed to start mongodump: '' @ e), st)
                     | None \<Rightarrow>
                        (let st = st\<lparr>trees := (trees st)(outputPath \<mapsto> output_tree cmd)\<rparr>;
                             st = add_log st (snd (snd (scan_stdout (stdout_lines cmd))));
                             stdoutBuf = buffer_lines (stdout_lines cmd);
                             stderrBuf = buffer_lines (stderr_lines cmd)
                         in case Wait_err cmd of
                              Some e \<Rightarrow>
                                (Some (''mongodump failed: '' @ e @ '' - stderr: '' @ stderrBuf),
                                 add_log st [Dump_failed e stdoutBuf stderrBuf])
                            | None \<Rightarrow>
                               (case Walk (trees st outputPath) outputPath count_bson (0, 0) of
                                  ((collectionCount, totalSize), werr) \<Rightarrow>
                                    (None,
                                     add_log
                                       (case werr of
                                          Some e \<Rightarrow> add_log st [Stats_warning e]
                                        | None \<Rightarrow> st)
                                       [Dump_completed outputPath totalSize collectionCount])))))))"


subsection \<open>The progress reader of the upload stage (progressReader)\<close>

record progressReader =
  totalSize :: int
  bytesRead :: int
  lastLoggedPct :: int
  s3Key :: string

text \<open>
  \<open>Read\<close>, given the count \<open>n\<close> that the wrapped file returned. The first argument stands
  for \<open>int((float64(bytesRead) / float64(totalSize)) * 100)\<close>.
\<close>

definition pr_Read :: "(int \<Rightarrow> int \<Rightarrow> int) \<Rightarrow> progressReader \<times> log_entry list \<Rightarrow> int \<Rightarrow>
    progressReader \<times> log_entry list" where
  "pr_Read percent st n =
     (case st of (r, lg) \<Rightarrow>
        if n > 0 then
          (let r = r\<lparr>bytesRead := wrap64 (bytesRead r + n)\<rparr>;
               pct = percent (bytesRead r) (totalSize r)
           in if pct \<ge> wrap64 (lastLoggedPct r + 10) \<or> pct = 100
              then (r\<lparr>lastLoggedPct := pct\<rparr>,
                    lg @ [Upload_progress (s3Key r) pct (bytesRead r) (totalSize r)])
              else (r, lg))
        else (r, lg))"

definition pr_Seek :: "progressReader \<times> log_entry list \<Rightarrow> int \<Rightarrow> int \<Rightarrow> progressReader \<times> log_entry list" where
  "pr_Seek st offset whence =
     (case st of (r, lg) \<Rightarrow>
        if offset = 0 \<and> whence = 0 then (r\<lparr>bytesRead := 0, lastLoggedPct := 0\<rparr>, lg)
        else (r, lg))"

fun pr_call :: "(int \<Rightarrow> int \<Rightarrow> int) \<Rightarrow> progressReader \<times> log_entry list \<Rightarrow> reader_call \<Rightarrow>
    progressReader \<times> log_entry list" where
  "pr_call percent st (Read n) = pr_Read percent st n"
| "pr_call percent st (Seek offset whence) = pr_Seek st offset whence"

text \<open>The reader as \<open>UploadFile\<close> builds it, driven through the calls of one transfer.\<close>

definition read_body :: "(int \<Rightarrow> int \<Rightarrow> int) \<Rightarrow> string \<Rightarrow> int \<Rightarrow> reader_call list \<Rightarrow>
    progressReader \<times> log_entry list" where
  "read_body percent key tot calls =
     foldl (pr_call percent)
       (\<lparr>totalSize = tot, bytesRead = 0, lastLoggedPct = 0, s3Key = key\<rparr>, []) calls"

subsection \<open>The percentages a stage logs\<close>

fun logged_pct :: "log_entry \<Rightarrow> int option" where
  "logged_pct (Dump_progress c p) = Some p"
| "logged_pct (Upload_progress k p b t) = Some p"
| "logged_pct e = None"

fun percentages :: "log_entry list \<Rightarrow> int list" where
  "percentages [] = []"
| "percentages (e # es) =
     (case logged_pct e of
        Some p \<Rightarrow> p # percentages es
      | None \<Rightarrow> percentages es)"

definition dump_percentages :: "string list \<Rightarrow> int list" where
  "dump_percentages lines = percentages (snd (snd (scan_stdout lines)))"








section \<open>The archive stage (compressFile)\<close>

text \<open>
  \<open>filepath.Rel(basepath, targpath)\<close> on the paths of a walk: the walk builds every path
  from its root with \<open>Join\<close>, so the target is the root itself or lies below it. For any
  other pair the library answers with a path through \<open>..\<close> or an error; the walk never
  asks for one, and the model answers with an error.
\<close>

definition Rel :: "string \<Rightarrow> string \<Rightarrow> error + string" where
  "Rel basepath targpath =
     (if targpath = basepath then Inr ''.''
      else if prefix (basepath @ ''/'') targpath then Inr (drop (length basepath + 1) targpath)
      else Inl (''Rel: can't make '' @ targpath @ '' relative to '' @ basepath))"

text \<open>\<open>os.Open\<close> followed by reading the file to its end.\<close>

fun Open :: "node \<Rightarrow> error + string" where
  "Open (File c) = Inr c"
| "Open (NoOpen n e) = Inl e"
| "Open (NoStat e) = Inl e"
| "Open (NoList e) = Inl e"
| "Open (Dir es) = Inl ''is a directory''"

text \<open>
  \<open>io.CopyBuffer(dst, src, buf)\<close>: what reaches the destination when the source is read
  through a buffer of \<open>n\<close> bytes, one full buffer after the other. (The call panics on an
  empty buffer; the buffer here has 32 KiB.)
\<close>

function CopyBuffer :: "nat \<Rightarrow> string \<Rightarrow> string" where
  "CopyBuffer n src = (if n = 0 \<or> src = [] then [] else take n src @ CopyBuffer n (drop n src))"
  by pat_completeness auto
termination
  by (relation "measure (\<lambda>(n, src). length src)") auto

declare CopyBuffer.simps [simp del]

text \<open>
  The callback of \<open>compressFile\<close>; its state is the list of entries written to the
  container so far. \<open>CreateHeader\<close> writes the entry's header before the file is opened, so
  a file that cannot be opened leaves an entry without data behind. \<open>zip.FileInfoHeader\<close>
  does not fail; names are taken to be within the format's length limit.
\<close>

definition add_to_zip :: "string \<Rightarrow> zip_entry list WalkFunc" where
  "add_to_zip sourceDir filePath info err entries =
     (case err of
        Some e \<Rightarrow> (entries, Some e)
      | None \<Rightarrow>
         if IsDir info then (entries, None)
         else
           (case Rel sourceDir filePath of
              Inl e \<Rightarrow> (entries, Some (''failed to get relative path for '' @ filePath @ '': '' @ e))
            | Inr relPath \<Rightarrow>
               (case Open info of
                  Inl e \<Rightarrow>
                    (entries @ [\<lparr>Name = relPath, Method = Deflate, Data = []\<rparr>],
                     Some (''failed to open file '' @ filePath @ '': '' @ e))
                | Inr content \<Rightarrow>
                    (entries @ [\<lparr>Name = relPath, Method = Deflate,
                                 Data = CopyBuffer (32 * 1024) content\<rparr>],
                     None))))"

text \<open>
  The deferred \<open>zipWriter.Close()\<close> writes the central directory and flushes what is
  buffered; its error is discarded. When it fails the file is left without a directory,
  and a reader gets no entry out of it.
\<close>

definition finished :: "run_io \<Rightarrow> zip_entry list \<Rightarrow> zip_entry list" where
  "finished io entries = (if Close_err io = None then entries else [])"

definition compressFile :: "run_io \<Rightarrow> string \<Rightarrow> string \<Rightarrow> state \<Rightarrow> error option \<times> state" where
  "compressFile io sourceDir target st =
     (case Create_err io of
        Some e \<Rightarrow> (Some (''failed to create zip file: '' @ e), st)
      | None \<Rightarrow>
         (case Walk (trees st sourceDir) sourceDir (add_to_zip sourceDir) [] of
            (entries, werr) \<Rightarrow>
              (case werr of
                 Some e \<Rightarrow>
                   (Some (''failed to walk directory: '' @ e),
                    st\<lparr>zips := (zips st)(target \<mapsto> finished io entries)\<rparr>)
               | None \<Rightarrow> (None, st\<lparr>zips := (zips st)(target \<mapsto> finished io entries)\<rparr>))))"

section \<open>The upload stage (S3Client.UploadFile)\<close>

text \<open>
  \<open>os.Stat\<close> of the container gives the size the run's environment reports for it; the
  body handed to \<open>PutObject\<close> is the progress reader, and the client's calls on it are
  part of the environment.
\<close>

definition UploadFile :: "S3Client \<Rightarrow> run_io \<Rightarrow> string \<Rightarrow> string \<Rightarrow> state \<Rightarrow> error option \<times> state" where
  "UploadFile s io filePath key st =
     (case zips st filePath of
        None \<Rightarrow>
          (Some (''failed to get file info: stat '' @ filePath @ '': no such file or directory''), st)
      | Some entries \<Rightarrow>
         (let st = add_log st [Uploading filePath key (bucket s) (zip_size io)];
              st = add_log st (snd (read_body (percent_f64 io) key (zip_size io) (PutObject_calls io)))
          in case PutObject_err io of
               Some e \<Rightarrow> (Some (''failed to upload to S3: '' @ e), st)
             | None \<Rightarrow>
                 (None,
                  add_log (st\<lparr>objects := (objects st)(key \<mapsto> entries)\<rparr>)
                    [Uploaded key (bucket s) (zip_size io)])))"

section \<open>Naming the artifacts (pkg/mongodb/dump.go: GenerateBackupFilename)\<close>

definition digit_char :: "nat \<Rightarrow> char" where
  "digit_char d = ''0123456789'' ! (d mod 10)"

fun decimal :: "nat \<Rightarrow> string" where
  "decimal n = (if n < 10 then [digit_char n] else decimal (n div 10) @ [digit_char (n mod 10)])"

declare decimal.simps [simp del]

text \<open>The time package's \<open>appendInt\<close>: decimal digits, padded with zeros to a width.\<close>

definition appendInt :: "nat \<Rightarrow> nat \<Rightarrow> string" where
  "appendInt x width = replicate (width - length (decimal x)) (CHR ''0'') @ decimal x"

text \<open>\<open>t.Format("2006-01-02T15-04-05Z")\<close> and \<open>t.Format("2006-01-02")\<close>.\<close>

definition Format_timestamp :: "civil \<Rightarrow> string" where
  "Format_timestamp t =
     appendInt (Year t) 4 @ ''-'' @ appendInt (Month t) 2 @ ''-'' @ appendInt (Day t) 2 @ ''T'' @
     appendInt (Hour t) 2 @ ''-'' @ appendInt (Minute t) 2 @ ''-'' @ appendInt (Second t) 2 @ ''Z''"

definition Format_date :: "civil \<Rightarrow> string" where
  "Format_date t = appendInt (Year t) 4 @ ''-'' @ appendInt (Month t) 2 @ ''-'' @ appendInt (Day t) 2"

text \<open>
  The three results are \<open>backupDirName\<close>, \<open>localBackupPath\<close> and \<open>s3Key\<close>. The timestamp
  comes from \<open>time.Now().UTC()\<close>; the date segment of the key comes from a second reading,
  \<open>time.Now()\<close>, in the local zone.
\<close>

definition GenerateBackupFilename :: "MongoDumper \<Rightarrow> run_io \<Rightarrow> string \<times> string \<times> string" where
  "GenerateBackupFilename d io =
     (let timestamp = Format_timestamp (now_utc io);
          environment = GetEnvironment (md_config d) ''default'';
          dbName = GetDatabase (md_config d) ''all-databases'';
          backupDirName = dbName @ ''-'' @ environment @ ''-'' @ timestamp;
          localBackupPath = Join (TempDir (md_config d)) backupDirName;
          s3Key = environment @ ''/'' @ Format_date (now_local io) @ ''/'' @ backupDirName
      in (backupDirName, localBackupPath, s3Key))"

definition GenerateBackupFilename_log :: "MongoDumper \<Rightarrow> log_entry list" where
  "GenerateBackupFilename_log d =
     (if GetEnvironment (md_config d) ''default'' = ''default'' then [No_environment] else [])"

text \<open>The key under which \<open>Dump\<close> uploads the container: the third result with
  \<open>.zip\<close> appended.\<close>

definition remote_key :: "MongoDumper \<Rightarrow> run_io \<Rightarrow> string" where
  "remote_key d io = snd (snd (GenerateBackupFilename d io)) @ ''.zip''"

text \<open>A reading of the clock has a year of at most four digits and fields within the
  calendar's and the clock's ranges.\<close>

definition wellformed :: "civil \<Rightarrow> bool" where
  "wellformed t \<longleftrightarrow>
     Year t \<le> 9999 \<and> 1 \<le> Month t \<and> Month t \<le> 12 \<and> 1 \<le> Day t \<and> Day t \<le> 31 \<and>
     Hour t \<le> 23 \<and> Minute t \<le> 59 \<and> Second t \<le> 59"

text \<open>The shapes \<open>YYYY-MM-DD\<close> and \<open>YYYY-MM-DDTHH-MM-SSZ\<close>.\<close>

definition date_shape :: "string \<Rightarrow> bool" where
  "date_shape s \<longleftrightarrow>
     length s = 10 \<and>
     list_all is_digit (take 4 s) \<and> s ! 4 = CHR ''-'' \<and>
     list_all is_digit (take 2 (drop 5 s)) \<and> s ! 7 = CHR ''-'' \<and>
     list_all is_digit (take 2 (drop 8 s))"


definition timestamp_shape :: "string \<Rightarrow> bool" where
  "timestamp_shape s \<longleftrightarrow>
     length s = 20 \<and>
     list_all is_digit (take 4 s) \<and> s ! 4 = CHR ''-'' \<and>
     list_all is_digit (take 2 (drop 5 s)) \<and> s ! 7 = CHR ''-'' \<and>
     list_all is_digit (take 2 (drop 8 s)) \<and> s ! 10 = CHR ''T'' \<and>
     list_all is_digit (take 2 (drop 11 s)) \<and> s ! 13 = CHR ''-'' \<and>
     list_all is_digit (take 2 (drop 14 s)) \<and> s ! 16 = CHR ''-'' \<and>
     list_all is_digit (take 2 (drop 17 s)) \<and> s ! 19 = CHR ''Z''"

section \<open>The pipeline (Dumper.Dump)\<close>

text \<open>\<open>os.RemoveAll\<close> succeeds on a path that does not exist; \<open>os.Remove\<close> does not.\<close>

definition RemoveAll :: "run_io \<Rightarrow> string \<Rightarrow> state \<Rightarrow> error option \<times> state" where
  "RemoveAll io path st =
     (case RemoveAll_err io of
        Some e \<Rightarrow> (Some e, st)
      | None \<Rightarrow> (None, st\<lparr>trees := (trees st)(path := None)\<rparr>))"

definition Remove :: "run_io \<Rightarrow> string \<Rightarrow> state \<Rightarrow> error option \<times> state" where
  "Remove io path st =
     (if zips st path = None then (Some (''remove '' @ path @ '': no such file or directory''), st)
      else (case Remove_err io of
              Some e \<Rightarrow> (Some e, st)
            | None \<Rightarrow> (None, st\<lparr>zips := (zips st)(path := None)\<rparr>)))"

text \<open>
  \<open>Dump\<close> from the compression step on: the statistics of step 1 are its arguments.
\<close>

definition Dump_from_step2 :: "Dumper \<Rightarrow> run_io \<Rightarrow> string \<Rightarrow> string \<Rightarrow> int \<Rightarrow> int \<Rightarrow> state \<Rightarrow>
    error option \<times> state" where
  "Dump_from_step2 d io localBackupPath s3KeyPrefix collectionCount originalSize st0 =
     (let st = add_log st0 [Step2_start];
          compressedPath = localBackupPath @ ''.zip'';
          compressedS3Key = s3KeyPrefix @ ''.zip''
      in case compressFile io localBackupPath compressedPath st of
           (Some e, st) \<Rightarrow> (Some (''failed to compress dump directory: '' @ e), st)
         | (None, st) \<Rightarrow>
            (let (compressedSize, compressionRatio) =
                   (if zips st compressedPath \<noteq> None
                    then (zip_size io, F64_div originalSize (zip_size io))
                    else (0, F64_zero));
                 st = add_log st
                        [if zips st compressedPath \<noteq> None
                         then Compression_completed compressedSize compressionRatio
                         else Compression_completed_err
                                (''stat '' @ compressedPath @ '': no such file or directory'')];
                 st = add_log st [Step3_start compressedS3Key]
             in case UploadFile (s3Client d) io compressedPath compressedS3Key st of
                  (Some e, st) \<Rightarrow> (Some (''failed to upload dump to S3: '' @ e), st)
                | (None, st) \<Rightarrow>
                   (let st = add_log st [Step3_completed, Step4_start];
                        st = (case RemoveAll io localBackupPath st of
                                (Some e, st) \<Rightarrow> add_log st [Remove_dir_warning localBackupPath e]
                              | (None, st) \<Rightarrow> st);
                        st = (case Remove io compressedPath st of
                                (Some e, st) \<Rightarrow> add_log st [Remove_zip_warning compressedPath e]
                              | (None, st) \<Rightarrow> st);
                        st = add_log st
                               [Step4_completed,
                                Backup_completed compressedS3Key collectionCount originalSize
                                  compressedSize compressionRatio]
                    in (None, st))))"

definition Dump :: "Dumper \<Rightarrow> run_io \<Rightarrow> state \<Rightarrow> error option \<times> state" where
  "Dump d io st0 =
     (case GenerateBackupFilename (mongoDump d) io of
        (backupDirName, localBackupPath, s3KeyPrefix) \<Rightarrow>
          (let st = add_log st0
                      ([Starting_backup] @ GenerateBackupFilename_log (mongoDump d) @
                       [Backup_details localBackupPath s3KeyPrefix, Step1_start])
           in case CreateDump (mongoDump d) io localBackupPath st of
                (Some e, st) \<Rightarrow> (Some (''failed to create MongoDB dump: '' @ e), st)
              | (None, st) \<Rightarrow>
                 (case Walk (trees st localBackupPath) localBackupPath count_bson (0, 0) of
                    ((collectionCount, originalSize), werr) \<Rightarrow>
                      (let st = (case werr of
                                   Some e \<Rightarrow> add_log st [Stats_warning e]
                                 | None \<Rightarrow> st);
                           st = add_log st [Step1_completed originalSize collectionCount]
                       in Dump_from_step2 d io localBackupPath s3KeyPrefix
                            collectionCount originalSize st))))"

section \<open>The scheduler (cmd/dumper/main.go: main, from the constructed dumper on)\<close>

text \<open>
  What the \<open>select\<close> statement of the loop receives, one event per turn: a tick of the
  ticker, or the cancellation of the context.
\<close>

datatype select_event = Tick | Done

text \<open>The entries of the application's logger in this part of \<open>main\<close>.\<close>

datatype main_log =
    Running_one_time
  | Backup_failed error
  | One_time_completed
  | Starting_periodic
  | Running_initial
  | Initial_failed error
  | Starting_scheduled
  | Scheduled_failed error
  | Shutting_down

text \<open>
  How \<open>main\<close> ends: it returns, \<open>Fatal\<close> ends the process, \<open>time.NewTicker\<close> panics on
  an interval that is not positive, or the loop is still waiting in its \<open>select\<close> when
  the events given are used up.
\<close>

datatype ending = Returned | Fatal error | Panicked string | Waiting

text \<open>
  The loop. Its state is the number of pipeline runs made, the pipeline's state and the
  log; the \<open>n\<close>-th run meets the environment \<open>ios n\<close>.
\<close>

fun backup_loop :: "Dumper \<Rightarrow> (nat \<Rightarrow> run_io) \<Rightarrow> select_event list \<Rightarrow>
    nat \<times> state \<times> main_log list \<Rightarrow> ending \<times> nat \<times> state \<times> main_log list" where
  "backup_loop d ios [] s = (Waiting, s)"
| "backup_loop d ios (Done # evs) (n, st, lg) = (Returned, (n, st, lg @ [Shutting_down]))"
| "backup_loop d ios (Tick # evs) (n, st, lg) =
     (case Dump d (ios n) st of
        (Some e, st') \<Rightarrow>
          backup_loop d ios evs (Suc n, st', lg @ [Starting_scheduled, Scheduled_failed e])
      | (None, st') \<Rightarrow>
          backup_loop d ios evs (Suc n, st', lg @ [Starting_scheduled]))"

text \<open>The interval is a \<open>time.Duration\<close>, a signed count of nanoseconds.\<close>

definition main_run :: "Dumper \<Rightarrow> int \<Rightarrow> bool \<Rightarrow> (nat \<Rightarrow> run_io) \<Rightarrow> select_event list \<Rightarrow> state \<Rightarrow>
    ending \<times> nat \<times> state \<times> main_log list" where
  "main_run d interval oneTime ios evs st =
     (let isOneTime = oneTime \<or> interval = 0 in
      if isOneTime then
        (case Dump d (ios 0) st of
           (Some e, st') \<Rightarrow> (Fatal e, (1, st', [Running_one_time, Backup_failed e]))
         | (None, st') \<Rightarrow> (Returned, (1, st', [Running_one_time, One_time_completed])))
      else if interval \<le> 0 then
        (Panicked ''non-positive interval for NewTicker'', (0, st, [Starting_periodic]))
      else
        (case Dump d (ios 0) st of
           (Some e, st') \<Rightarrow>
             backup_loop d ios evs (1, st', [Starting_periodic, Running_initial, Initial_failed e])
         | (None, st') \<Rightarrow>
             backup_loop d ios evs (1, st', [Starting_periodic, Running_initial])))"

text \<open>
  The specification's account of periodic mode: the runs made one after the other, each
  from the state the one before left, and the log they give rise to.
\<close>

fun scheduled_runs :: "Dumper \<Rightarrow> (nat \<Rightarrow> run_io) \<Rightarrow> nat \<Rightarrow> nat \<Rightarrow> state \<times> main_log list \<Rightarrow>
    state \<times> main_log list" where
  "scheduled_runs d ios n 0 s = s"
| "scheduled_runs d ios n (Suc k) (st, lg) =
     scheduled_runs d ios (Suc n) k
       (snd (Dump d (ios n) st),
        lg @ Starting_scheduled #
          (case fst (Dump d (ios n) st) of Some e \<Rightarrow> [Scheduled_failed e] | None \<Rightarrow> []))"

definition initial_run :: "Dumper \<Rightarrow> (nat \<Rightarrow> run_io) \<Rightarrow> state \<Rightarrow> state \<times> main_log list" where
  "initial_run d ios st =
     (snd (Dump d (ios 0) st),
      [Starting_periodic, Running_initial] @
        (case fst (Dump d (ios 0) st) of Some e \<Rightarrow> [Initial_failed e] | None \<Rightarrow> []))"

section \<open>The files of a tree, as the specification speaks of them\<close>

text \<open>A tree in which every system call of a walk succeeds.\<close>

fun readable :: "node \<Rightarrow> bool"
  and readable_entries :: "(string \<times> node) list \<Rightarrow> bool"
where
  "readable (File c) = True"
| "readable (Dir es) = readable_entries es"
| "readable (NoStat e) = False"
| "readable (NoList e) = False"
| "readable (NoOpen n e) = False"
| "readable_entries [] = True"
| "readable_entries ((name, n) # es) = (readable n \<and> readable_entries es)"

text \<open>
  The files below a node, each with the names that lead to it from the root of the walk
  and its content, in the order of the walk.
\<close>

fun files_of :: "string list \<Rightarrow> node \<Rightarrow> (string list \<times> string) list"
  and files_of_entries :: "string list \<Rightarrow> (string \<times> node) list \<Rightarrow> (string list \<times> string) list"
where
  "files_of comps (File c) = [(comps, c)]"
| "files_of comps (Dir es) = files_of_entries comps es"
| "files_of comps (NoStat e) = []"
| "files_of comps (NoList e) = []"
| "files_of comps (NoOpen n e) = []"
| "files_of_entries comps [] = []"
| "files_of_entries comps ((name, n) # es) =
     files_of (comps @ [name]) n @ files_of_entries comps es"

text \<open>A file's path relative to the root: its names joined by the separator (\<open>.\<close> for
  the root itself).\<close>

fun join_slash :: "string list \<Rightarrow> string" where
  "join_slash [] = []"
| "join_slash [x] = x"
| "join_slash (x # y # zs) = x @ ''/'' @ join_slash (y # zs)"

definition relative_name :: "string list \<Rightarrow> string" where
  "relative_name comps = (if comps = [] then ''.'' else join_slash comps)"

text \<open>The entry the specification expects for a file.\<close>

definition entry_of :: "string list \<times> string \<Rightarrow> zip_entry" where
  "entry_of f = \<lparr>Name = relative_name (fst f), Method = Deflate, Data = snd f\<rparr>"

text \<open>A collection file is one whose name ends in \<open>.bson\<close>.\<close>

definition is_collection :: "string list \<times> string \<Rightarrow> bool" where
  "is_collection f \<longleftrightarrow> fst f \<noteq> [] \<and> suffix ''.bson'' (last (fst f))"

definition collections :: "node \<Rightarrow> (string list \<times> string) list" where
  "collections tree = filter is_collection (files_of [] tree)"

text \<open>The path the walk gives to the node reached through the names \<open>comps\<close>.\<close>

definition path_of :: "string \<Rightarrow> string list \<Rightarrow> string" where
  "path_of base comps = base @ concat (map (\<lambda>n. ''/'' @ n) comps)"

text \<open>The test of the counting callback on a file, and the counters after a list of
  files has been counted.\<close>

definition is_bson :: "string \<Rightarrow> string list \<times> string \<Rightarrow> bool" where
  "is_bson base f \<longleftrightarrow> Ext (path_of base (fst f)) = ''.bson''"

definition tally :: "(string list \<times> string) list \<Rightarrow> int \<times> int \<Rightarrow> int \<times> int" where
  "tally fs cs = (fst cs + int (length fs), snd cs + sum_list (map (\<lambda>f. int (length (snd f))) fs))"

section \<open>Example inputs\<close>

definition example_config :: DumperConfig where
  "example_config =
     \<lparr>MongoURI = ''mongodb://db.internal:27017'', Database = ''orders'',
      Environment = ''staging'', S3Endpoint = ''https://s3.example.com'', S3Region = ''eu'',
      S3Bucket = ''backups'', S3AccessKey = ''key'', S3SecretKey = ''secret'',
      TempDir = ''/tmp/mongodb-dumps''\<rparr>"

definition example_host :: host where
  "example_host =
     \<lparr>LookPath_mongodump = True, LoadDefaultConfig_err = None, MkdirAll_TempDir_err = None\<rparr>"

definition empty_state :: state where
  "empty_state = \<lparr>trees = Map.empty, zips = Map.empty, objects = Map.empty, log = []\<rparr>"


text \<open>The utility writes two collections and their metadata and exits with code 0.\<close>

definition two_collections :: node where
  "two_collections =
     Dir [(''orders'',
           Dir [(''items.bson'', File ''0123456789''),
                (''items.metadata.json'', File ''{}''),
                (''users.bson'', File ''01234567890123456789''),
                (''users.metadata.json'', File ''{}'')])]"

definition good_dump :: process where
  "good_dump =
     \<lparr>Start_err = None,
      stdout_lines = [''writing orders.items to /tmp/x'', ''progress 30%'', ''35%'', ''100%''],
      stderr_lines = [], Wait_err = None, output_tree = two_collections\<rparr>"

definition noon :: civil where
  "noon = \<lparr>Year = 2023, Month = 4, Day = 15, Hour = 12, Minute = 0, Second = 0\<rparr>"

definition example_io :: run_io where
  "example_io =
     \<lparr>now_utc = noon, now_local = noon, MkdirAll_err = None, Pipe_err = None,
      mongodump = (\<lambda>args. good_dump), Create_err = None, Close_err = None, zip_size = 400,
      percent_f64 = (\<lambda>a b. 100 * a div b), PutObject_calls = [Read 200, Read 200],
      PutObject_err = None, RemoveAll_err = None, Remove_err = None\<rparr>"

definition example_dumper :: Dumper where
  "example_dumper =
     \<lparr>config = example_config, s3Client = \<lparr>bucket = ''backups''\<rparr>,
      mongoDump = \<lparr>md_config = example_config\<rparr>\<rparr>"

text \<open>The working directory after a dump to \<open>/tmp/x\<close>.\<close>

definition dumped_state :: state where
  "dumped_state = empty_state\<lparr>trees := [''/tmp/x'' \<mapsto> two_collections]\<rparr>"

text \<open>The same run with an upload that the storage service refuses, and with a
  container that could not be flushed when it was closed, so that its size is zero.\<close>

definition upload_denied :: run_io where
  "upload_denied = example_io\<lparr>PutObject_err := Some ''AccessDenied''\<rparr>"

definition empty_container :: run_io where
  "empty_container =
     example_io\<lparr>Close_err := Some ''write: no space left on device'', zip_size := 0,
                 PutObject_calls := []\<rparr>"

text \<open>A reading half an hour before midnight UTC, and the same instant read in a zone
  two hours ahead.\<close>

definition late_utc :: civil where
  "late_utc = \<lparr>Year = 2023, Month = 4, Day = 15, Hour = 23, Minute = 30, Second = 0\<rparr>"

definition late_local :: civil where
  "late_local = \<lparr>Year = 2023, Month = 4, Day = 16, Hour = 1, Minute = 30, Second = 0\<rparr>"

section \<open>Construction rejects every configuration error\<close>

lemma Validate_Some_iff: "Validate c h \<noteq> None \<longleftrightarrow> config_error c h"
  by (auto simp: Validate_def config_error_def)

text \<open>
  Claim C8. A configuration with an empty connection string, with an empty endpoint,
  bucket, access key or secret key, or on a host where the dump utility is not on the
  execution path makes \<open>NewDumper\<close> return an error; and a \<open>Dumper\<close> that has been
  constructed carries a configuration with none of these defects, so none of them is left
  to be found by a run.
\<close>

theorem NewDumper_rejects_config_errors:
  "(config_error c h \<longrightarrow> (\<exists>e. NewDumper c h = Inl e)) \<and>
   (\<forall>d. NewDumper c h = Inr d \<longrightarrow> \<not> config_error c h \<and> config d = c)"
proof (intro conjI allI impI)
  assume "config_error c h"
  then have "Validate c h \<noteq> None" using Validate_Some_iff by blast
  then obtain e where "Validate c h = Some e" by blast
  then show "\<exists>e. NewDumper c h = Inl e" by (simp add: NewDumper_def)
next
  fix d assume ok: "NewDumper c h = Inr d"
  then have v: "Validate c h = None"
    by (cases "Validate c h") (simp_all add: NewDumper_def)
  then show "\<not> config_error c h" using Validate_Some_iff by blast
  from ok v show "config d = c"
    by (auto simp: NewDumper_def split: sum.splits option.splits if_splits)
qed

theorem NewDumper_rejects_config_errors_witness:
  "config_error (example_config\<lparr>S3SecretKey := []\<rparr>) example_host \<and>
   NewDumper (example_config\<lparr>S3SecretKey := []\<rparr>) example_host =
     Inl ''S3 configuration is incomplete'' \<and>
   NewDumper example_config (example_host\<lparr>LookPath_mongodump := False\<rparr>) =
     Inl ''mongodump executable not found in PATH'' \<and>
   NewDumper example_config example_host = Inr example_dumper"
  using NewDumper_rejects_config_errors [of "example_config\<lparr>S3SecretKey := []\<rparr>" example_host]
    NewDumper_rejects_config_errors [of example_config "example_host\<lparr>LookPath_mongodump := False\<rparr>"]
  by (simp add: config_error_def NewDumper_def Validate_def NewS3Client_def
      newS3ClientInternal_def NewMongoDumper_def ErrMongoDumpNotFound_def
      example_config_def example_host_def example_dumper_def)

section \<open>The database flag of the dump invocation\<close>

lemma Split_not_Nil: "Split s sep \<noteq> []"
  by (induction s) (auto split: list.splits)

lemma length_Split: "length (Split s sep) = Suc (count_list s sep)"
  by (induction s) (auto split: list.splits simp: Split_not_Nil)

lemma index0_Split: "index0 (Split s sep) = Some (takeWhile (\<lambda>x. x \<noteq> sep) s)"
  by (induction s) (auto simp: index0_def split: list.splits)

lemma uriContainsDB_total: "\<exists>b. uriContainsDB uri = Some b"
  by (auto simp: uriContainsDB_def index0_Split)

lemma uriContainsDB_eq: "uriContainsDB uri = Some (uri_embeds_database uri)"
proof (cases "CHR ''?'' \<in> set uri")
  case False
  then show ?thesis by (simp add: uriContainsDB_def uri_embeds_database_def Contains_def)
next
  case q: True
  show ?thesis
  proof (cases "CHR ''/'' \<in> set uri")
    case True
    with q show ?thesis
      by (auto simp: uriContainsDB_def uri_embeds_database_def Contains_def index0_Split length_Split)
  next
    case False
    then have "count_list (takeWhile (\<lambda>x. x \<noteq> CHR ''?'') uri) (CHR ''/'') = 0"
      by (metis count_list_0_iff set_takeWhileD)
    with q False show ?thesis
      by (simp add: uriContainsDB_def uri_embeds_database_def Contains_def)
  qed
qed






section \<open>A failed dump reports what the utility wrote to standard error\<close>







section \<open>Progress logging\<close>


lemma percentages_append: "percentages (xs @ ys) = percentages xs @ percentages ys"
  by (induction xs) (auto split: option.splits)




lemma pr_call_fields:
  "totalSize (fst (pr_call percent (r, lg) c)) = totalSize r"
  by (cases c) (auto simp: pr_Read_def pr_Seek_def Let_def)





lemma CreateDump_percentages:
  assumes "MkdirAll_err io = None" and "Pipe_err io = None"
    and "cmd = mongodump io (mongodump_args (md_config d) out (uri_embeds_database (MongoURI (md_config d))))"
    and "Start_err cmd = None"
  shows "percentages (log (snd (CreateDump d io out st))) =
           percentages (log st) @ dump_percentages (stdout_lines cmd)"
  using assms
  by (auto simp: CreateDump_def uriContainsDB_eq Let_def add_log_def percentages_append
      dump_percentages_def split: option.splits prod.splits)





section \<open>Walking a readable tree\<close>

lemma CopyBuffer_id: "0 < n \<Longrightarrow> CopyBuffer n src = src"
proof (induction n src rule: CopyBuffer.induct)
  case (1 n src)
  show ?case
  proof (cases "src = []")
    case True
    then show ?thesis by (simp add: CopyBuffer.simps)
  next
    case False
    with 1 have "CopyBuffer n (drop n src) = drop n src" by simp
    with False 1 show ?thesis by (subst CopyBuffer.simps) simp
  qed
qed

lemma Join_path_of: "base \<noteq> [] \<Longrightarrow> Join (path_of base comps) name = path_of base (comps @ [name])"
  by (simp add: Join_def path_of_def)

lemma join_slash_concat: "comps \<noteq> [] \<Longrightarrow> concat (map (\<lambda>n. ''/'' @ n) comps) = ''/'' @ join_slash comps"
  by (induction comps rule: join_slash.induct) auto

lemma Rel_path_of: "Rel base (path_of base comps) = Inr (relative_name comps)"
proof (cases "comps = []")
  case True
  then show ?thesis by (simp add: Rel_def path_of_def relative_name_def)
next
  case False
  then have c: "concat (map (\<lambda>n. ''/'' @ n) comps) = ''/'' @ join_slash comps"
    by (rule join_slash_concat)
  then have "path_of base comps \<noteq> base" by (simp add: path_of_def)
  then show ?thesis using False c by (simp add: Rel_def path_of_def relative_name_def)
qed

lemma add_to_zip_File:
  "add_to_zip base (path_of base comps) (File c) None entries =
     (entries @ [entry_of (comps, c)], None)"
  by (simp add: add_to_zip_def Rel_path_of entry_of_def CopyBuffer_id)

lemma add_to_zip_Dir: "add_to_zip base path (Dir es) None entries = (entries, None)"
  by (simp add: add_to_zip_def)

lemma walk_add_to_zip:
  "base \<noteq> [] \<Longrightarrow> readable n \<Longrightarrow>
     walk (add_to_zip base) (path_of base comps) n entries =
       (entries @ map entry_of (files_of comps n), None)"
  "base \<noteq> [] \<Longrightarrow> readable_entries es \<Longrightarrow>
     walk_names (add_to_zip base) (path_of base comps) es entries =
       (entries @ map entry_of (files_of_entries comps es), None)"
proof (induction comps n and comps es arbitrary: entries and entries rule: files_of_files_of_entries.induct)
  case (1 comps c)
  then show ?case by (simp add: add_to_zip_File)
next
  case (2 comps es)
  then show ?case by (simp add: add_to_zip_Dir)
next
  case (7 comps name n es)
  then show ?case by (simp add: Join_path_of)
qed simp_all

lemma ext_scan_eq:
  "ext_scan r acc =
     (case dropWhile (\<lambda>c. c \<noteq> CHR ''/'' \<and> c \<noteq> CHR ''.'') r of
        [] \<Rightarrow> []
      | c # cs \<Rightarrow> if c = CHR ''/'' then []
                  else CHR ''.'' # rev (takeWhile (\<lambda>c. c \<noteq> CHR ''/'' \<and> c \<noteq> CHR ''.'') r) @ acc)"
proof (induction r arbitrary: acc)
  case Nil
  show ?case by simp
next
  case (Cons a r)
  show ?case
  proof (cases "a = CHR ''/'' \<or> a = CHR ''.''")
    case True
    then show ?thesis by auto
  next
    case False
    then show ?thesis by (simp add: Cons.IH cong: list.case_cong if_cong)
  qed
qed

lemma ext_scan_bson:
  assumes "ext_scan r [] = ''.bson''"
  shows "\<exists>cs. r = ''nosb.'' @ cs"
proof -
  let ?P = "\<lambda>c. c \<noteq> CHR ''/'' \<and> c \<noteq> CHR ''.''"
  define t where t: "t = takeWhile ?P r"
  define d where d: "d = dropWhile ?P r"
  have r: "r = t @ d" unfolding t d by (rule takeWhile_dropWhile_id [symmetric])
  have e: "(case d of [] \<Rightarrow> [] | c # cs \<Rightarrow> if c = CHR ''/'' then [] else CHR ''.'' # rev t @ []) = ''.bson''"
    using assms unfolding t d by (simp only: ext_scan_eq)
  then obtain c cs where dc: "d = c # cs" by (cases d) simp_all
  from e have s: "c \<noteq> CHR ''/''" and rt: "rev t = ''bson''"
    unfolding dc by (simp_all split: if_splits)
  have "d \<noteq> []" using dc by simp
  then have "\<not> ?P (hd d)" unfolding d by (rule hd_dropWhile)
  then have "\<not> ?P c" unfolding dc by simp
  with s have c: "c = CHR ''.''" by simp
  from rt have "rev (rev t) = rev ''bson''" by (rule arg_cong)
  then have "t = ''nosb''" by simp
  with r dc c have "r = ''nosb.'' @ cs" by simp
  then show ?thesis by blast
qed

lemma Ext_bson_iff: "Ext p = ''.bson'' \<longleftrightarrow> suffix ''.bson'' p"
proof
  assume "suffix ''.bson'' p"
  then obtain q where "p = q @ ''.bson''" by (auto simp: suffix_def)
  then show "Ext p = ''.bson''" by (simp add: Ext_def)
next
  assume "Ext p = ''.bson''"
  then obtain cs where "rev p = ''nosb.'' @ cs"
    using ext_scan_bson [of "rev p"] by (auto simp: Ext_def)
  then have "rev (rev p) = rev (''nosb.'' @ cs)" by (rule arg_cong)
  then have "p = rev cs @ ''.bson''" by simp
  then show "suffix ''.bson'' p" by (simp add: suffix_def)
qed

lemma tally_Nil: "tally [] cs = cs"
  by (simp add: tally_def)

lemma tally_append: "tally (xs @ ys) cs = tally ys (tally xs cs)"
  by (simp add: tally_def)

lemma walk_count_bson:
  "base \<noteq> [] \<Longrightarrow> readable n \<Longrightarrow>
     walk count_bson (path_of base comps) n cs =
       (tally (filter (is_bson base) (files_of comps n)) cs, None)"
  "base \<noteq> [] \<Longrightarrow> readable_entries es \<Longrightarrow>
     walk_names count_bson (path_of base comps) es cs =
       (tally (filter (is_bson base) (files_of_entries comps es)) cs, None)"
proof (induction comps n and comps es arbitrary: cs and cs rule: files_of_files_of_entries.induct)
  case (1 comps c)
  then show ?case
    by (cases cs) (simp add: count_bson_def is_bson_def tally_def)
next
  case (2 comps es)
  then show ?case by (cases cs) (simp add: count_bson_def)
next
  case (6 comps)
  then show ?case by (simp add: tally_Nil)
next
  case (7 comps name n es)
  then show ?case by (simp add: Join_path_of tally_append)
qed simp_all

lemma files_of_prefix:
  "f \<in> set (files_of comps n) \<Longrightarrow> prefix comps (fst f)"
  "f \<in> set (files_of_entries comps es) \<Longrightarrow> strict_prefix comps (fst f)"
proof (induction comps n and comps es rule: files_of_files_of_entries.induct)
  case (7 comps name n es)
  from "7.prems" consider "f \<in> set (files_of (comps @ [name]) n)" | "f \<in> set (files_of_entries comps es)"
    by auto
  then show ?case
  proof cases
    case 1
    with "7.IH"(1) have "prefix (comps @ [name]) (fst f)" by simp
    then show ?thesis by (metis prefix_order.le_less_trans strict_prefixI' strict_prefix_def)
  next
    case 2
    with "7.IH"(2) show ?thesis by simp
  qed
qed auto

section \<open>The archive and the statistics\<close>

lemma path_of_Nil: "path_of base [] = base"
  by (simp add: path_of_def)

lemma Walk_add_to_zip:
  assumes "base \<noteq> []" and "readable tree"
  shows "Walk (Some tree) base (add_to_zip base) [] = (map entry_of (files_of [] tree), None)"
proof -
  have "walk (add_to_zip base) (path_of base []) tree [] = ([] @ map entry_of (files_of [] tree), None)"
    using assms by (rule walk_add_to_zip(1))
  then show ?thesis by (simp add: Walk_def path_of_Nil)
qed

lemma compressFile_readable:
  assumes "Create_err io = None" and "trees st sourceDir = Some tree" and "readable tree"
    and "sourceDir \<noteq> []"
  shows "compressFile io sourceDir target st =
           (None, st\<lparr>zips := (zips st)(target \<mapsto> finished io (map entry_of (files_of [] tree)))\<rparr>)"
  using assms by (simp add: compressFile_def Walk_add_to_zip)


lemma suffix_bson_path:
  assumes "comps \<noteq> []"
  shows "suffix ''.bson'' (path_of base comps) \<longleftrightarrow> suffix ''.bson'' (last comps)"
proof -
  from assms obtain cs c where cs: "comps = cs @ [c]" by (metis rev_exhaust)
  have p: "path_of base (cs @ [c]) = path_of base cs @ ''/'' @ c"
    by (simp add: path_of_def)
  have "suffix ''.bson'' (path_of base cs @ ''/'' @ c) \<longleftrightarrow> suffix ''.bson'' c"
    by (auto simp: suffix_append suffix_Cons append_eq_Cons_conv Cons_eq_append_conv)
  then show ?thesis unfolding cs by (simp add: p)
qed

lemma is_bson_collection: "fst f \<noteq> [] \<Longrightarrow> is_bson base f \<longleftrightarrow> is_collection f"
  by (simp add: is_bson_def is_collection_def Ext_bson_iff suffix_bson_path)

lemma filter_bson_collections:
  "filter (is_bson base) (files_of [] (Dir es)) = collections (Dir es)"
proof -
  have "fst f \<noteq> []" if "f \<in> set (files_of [] (Dir es))" for f
    using files_of_prefix(2) [of f "[]" es] that by (auto simp: strict_prefix_def)
  then have "\<forall>f \<in> set (files_of [] (Dir es)). fst f \<noteq> []" by blast
  then show ?thesis
    unfolding collections_def by (intro filter_cong) (auto simp: is_bson_collection)
qed

lemma Walk_count_bson:
  assumes "base \<noteq> []" and "readable (Dir es)"
  shows "Walk (Some (Dir es)) base count_bson (0, 0) =
           ((int (length (collections (Dir es))),
             sum_list (map (\<lambda>f. int (length (snd f))) (collections (Dir es)))), None)"
proof -
  have "walk count_bson (path_of base []) (Dir es) (0, 0) =
          (tally (filter (is_bson base) (files_of [] (Dir es))) (0, 0), None)"
    using assms by (rule walk_count_bson(1))
  then have "walk count_bson base (Dir es) (0, 0) = (tally (collections (Dir es)) (0, 0), None)"
    by (simp only: path_of_Nil filter_bson_collections)
  then show ?thesis by (simp add: Walk_def tally_def del: walk.simps)
qed



lemma collections_two_collections:
  "collections two_collections =
     [([''orders'', ''items.bson''], ''0123456789''),
      ([''orders'', ''users.bson''], ''01234567890123456789'')]"
  by code_simp

lemma readable_two_collections: "readable two_collections"
  by (simp add: two_collections_def)



section \<open>The pipeline\<close>

lemma log_add_log: "log (add_log st es) = log st @ es"
  by (simp add: add_log_def)

lemma CreateDump_ok:
  assumes "MkdirAll_err io = None" and "Pipe_err io = None"
    and "cmd = mongodump io (mongodump_args (md_config d) out (uri_embeds_database (MongoURI (md_config d))))"
    and "Start_err cmd = None" and "Wait_err cmd = None"
  shows "\<exists>lg. CreateDump d io out st =
           (None, st\<lparr>trees := (trees st)(out \<mapsto> output_tree cmd), log := lg\<rparr>)"
  using assms
  by (auto simp: CreateDump_def uriContainsDB_eq Let_def add_log_def split: prod.splits option.splits)

lemma Dump_reaches_step2:
  assumes "MkdirAll_err io = None" and "Pipe_err io = None"
    and "cmd = mongodump io (mongodump_args (md_config (mongoDump d)) path
                  (uri_embeds_database (MongoURI (md_config (mongoDump d)))))"
    and "Start_err cmd = None" and "Wait_err cmd = None"
    and g: "GenerateBackupFilename (mongoDump d) io = (name, path, key)"
  shows "\<exists>lg. Dump d io st =
           Dump_from_step2 d io path key
             (fst (fst (Walk (Some (output_tree cmd)) path count_bson (0, 0))))
             (snd (fst (Walk (Some (output_tree cmd)) path count_bson (0, 0))))
             (st\<lparr>trees := (trees st)(path \<mapsto> output_tree cmd),
                 log := lg @ [Step1_completed
                   (snd (fst (Walk (Some (output_tree cmd)) path count_bson (0, 0))))
                   (fst (fst (Walk (Some (output_tree cmd)) path count_bson (0, 0))))]\<rparr>)"
proof -
  let ?st1 = "st\<lparr>log := log st @ Starting_backup # GenerateBackupFilename_log (mongoDump d) @
               [Backup_details path key, Step1_start]\<rparr>"
  obtain lg1 where c: "CreateDump (mongoDump d) io path ?st1 =
      (None, ?st1\<lparr>trees := (trees ?st1)(path \<mapsto> output_tree cmd), log := lg1\<rparr>)"
    using CreateDump_ok [OF assms(1-5), of ?st1] by blast
  obtain cnt sz werr where w: "Walk (Some (output_tree cmd)) path count_bson (0, 0) = ((cnt, sz), werr)"
    by (metis prod.exhaust)
  have "Dump d io st =
          Dump_from_step2 d io path key cnt sz
            (st\<lparr>trees := (trees st)(path \<mapsto> output_tree cmd),
                log := (lg1 @ (case werr of Some e \<Rightarrow> [Stats_warning e] | None \<Rightarrow> [])) @
                         [Step1_completed sz cnt]\<rparr>)"
    by (cases werr) (simp_all add: Dump_def g c w Let_def add_log_def)
  then show ?thesis unfolding w fst_conv snd_conv by blast
qed

lemma UploadFile_failure:
  assumes "zips st f = Some z" and "PutObject_err io = Some e"
  shows "\<exists>lg. UploadFile s io f k st = (Some (''failed to upload to S3: '' @ e), st\<lparr>log := lg\<rparr>)"
  using assms by (auto simp: UploadFile_def Let_def add_log_def)

lemma Dump_from_step2_Create_failure:
  assumes "Create_err io = Some e"
  shows "Dump_from_step2 d io p k c n st =
           (Some (''failed to compress dump directory: failed to create zip file: '' @ e),
            add_log st [Step2_start])"
  using assms by (simp add: Dump_from_step2_def compressFile_def Let_def)

lemma Dump_from_step2_upload_failure:
  assumes "Create_err io = None" and "trees st p = Some tree" and "readable tree" and "p \<noteq> []"
    and "PutObject_err io = Some e"
  shows "\<exists>lg. Dump_from_step2 d io p k c n st =
           (Some (''failed to upload dump to S3: failed to upload to S3: '' @ e),
            st\<lparr>zips := (zips st)(p @ ''.zip'' \<mapsto> finished io (map entry_of (files_of [] tree))),
               log := lg\<rparr>)"
proof -
  let ?st1 = "add_log st [Step2_start]"
  let ?z = "finished io (map entry_of (files_of [] tree))"
  have t: "trees ?st1 p = Some tree" using assms(2) by (simp add: add_log_def)
  have c: "compressFile io p (p @ ''.zip'') ?st1 = (None, ?st1\<lparr>zips := (zips ?st1)(p @ ''.zip'' \<mapsto> ?z)\<rparr>)"
    using assms(1) t assms(3,4) by (rule compressFile_readable)
  let ?st2 = "?st1\<lparr>zips := (zips ?st1)(p @ ''.zip'' \<mapsto> ?z)\<rparr>"
  let ?st3 = "add_log (add_log ?st2 [Compression_completed (zip_size io) (F64_div n (zip_size io))])
                [Step3_start (k @ ''.zip'')]"
  have z: "zips ?st3 (p @ ''.zip'') = Some ?z" by (simp add: add_log_def)
  obtain lg where u: "UploadFile (s3Client d) io (p @ ''.zip'') (k @ ''.zip'') ?st3 =
      (Some (''failed to upload to S3: '' @ e), ?st3\<lparr>log := lg\<rparr>)"
    using UploadFile_failure [OF z assms(5)] by blast
  have "Dump_from_step2 d io p k c n st =
          (Some (''failed to upload dump to S3: failed to upload to S3: '' @ e), ?st3\<lparr>log := lg\<rparr>)"
    by (simp add: Dump_from_step2_def Let_def c u)
  then show ?thesis by (auto simp: add_log_def)
qed

text \<open>
  Claim C1 asks that the dump directory and the container are removed at the end of every
  run that reached the archive or the upload stage. \<open>Dump\<close> removes them only on the path
  on which the upload succeeded: when the container cannot be created, or when the upload
  fails, it returns the stage's error at once and the artifacts written so far stay in the
  working directory.
\<close>

theorem Dump_failure_leaves_artifacts:
  assumes "MkdirAll_err io = None" and "Pipe_err io = None"
    and "cmd = mongodump io (mongodump_args (md_config (mongoDump d)) path
                  (uri_embeds_database (MongoURI (md_config (mongoDump d)))))"
    and "Start_err cmd = None" and "Wait_err cmd = None"
    and "GenerateBackupFilename (mongoDump d) io = (name, path, key)"
  shows "(Create_err io = Some e \<longrightarrow>
            fst (Dump d io st) =
              Some (''failed to compress dump directory: failed to create zip file: '' @ e) \<and>
            trees (snd (Dump d io st)) path = Some (output_tree cmd)) \<and>
         (Create_err io = None \<and> readable (output_tree cmd) \<and> PutObject_err io = Some e \<longrightarrow>
            fst (Dump d io st) =
              Some (''failed to upload dump to S3: failed to upload to S3: '' @ e) \<and>
            trees (snd (Dump d io st)) path = Some (output_tree cmd) \<and>
            zips (snd (Dump d io st)) (path @ ''.zip'') =
              Some (finished io (map entry_of (files_of [] (output_tree cmd)))))"
proof -
  obtain lg where d: "Dump d io st =
      Dump_from_step2 d io path key
        (fst (fst (Walk (Some (output_tree cmd)) path count_bson (0, 0))))
        (snd (fst (Walk (Some (output_tree cmd)) path count_bson (0, 0))))
        (st\<lparr>trees := (trees st)(path \<mapsto> output_tree cmd), log := lg\<rparr>)"
    using Dump_reaches_step2 [OF assms] by blast
  have p: "path \<noteq> []"
    using assms(6) by (auto simp: GenerateBackupFilename_def Let_def Join_def split: if_splits)
  show ?thesis
  proof (intro conjI impI)
    assume "Create_err io = Some e"
    then show "fst (Dump d io st) =
        Some (''failed to compress dump directory: failed to create zip file: '' @ e)"
      and "trees (snd (Dump d io st)) path = Some (output_tree cmd)"
      by (simp_all add: d Dump_from_step2_Create_failure add_log_def)
  next
    assume a: "Create_err io = None \<and> readable (output_tree cmd) \<and> PutObject_err io = Some e"
    let ?st = "st\<lparr>trees := (trees st)(path \<mapsto> output_tree cmd), log := lg\<rparr>"
    have t: "trees ?st path = Some (output_tree cmd)" by simp
    from a have a1: "Create_err io = None" and a2: "readable (output_tree cmd)"
      and a3: "PutObject_err io = Some e" by simp_all
    from Dump_from_step2_upload_failure [OF a1 t a2 p a3]
    obtain lg' where "Dump d io st =
        (Some (''failed to upload dump to S3: failed to upload to S3: '' @ e),
         ?st\<lparr>zips := (zips ?st)(path @ ''.zip'' \<mapsto>
                finished io (map entry_of (files_of [] (output_tree cmd)))),
              log := lg'\<rparr>)"
      unfolding d by blast
    then show "fst (Dump d io st) =
        Some (''failed to upload dump to S3: failed to upload to S3: '' @ e)"
      and "trees (snd (Dump d io st)) path = Some (output_tree cmd)"
      and "zips (snd (Dump d io st)) (path @ ''.zip'') =
              Some (finished io (map entry_of (files_of [] (output_tree cmd))))"
      by simp_all
  qed
qed

lemma Format_noon:
  "Format_timestamp noon = ''2023-04-15T12-00-00Z''"
  "Format_date noon = ''2023-04-15''"
  by code_simp+

lemma GenerateBackupFilename_example:
  assumes "now_utc io = noon" and "now_local io = noon"
  shows "GenerateBackupFilename (mongoDump example_dumper) io =
     (''orders-staging-2023-04-15T12-00-00Z'',
      ''/tmp/mongodb-dumps/orders-staging-2023-04-15T12-00-00Z'',
      ''staging/2023-04-15/orders-staging-2023-04-15T12-00-00Z'')"
  by (simp add: GenerateBackupFilename_def assms Format_noon example_dumper_def example_config_def
      GetEnvironment_def GetDatabase_def Join_def Let_def)

theorem Dump_failure_leaves_artifacts_witness:
  "fst (Dump example_dumper upload_denied empty_state) =
     Some ''failed to upload dump to S3: failed to upload to S3: AccessDenied'' \<and>
   trees (snd (Dump example_dumper upload_denied empty_state))
     ''/tmp/mongodb-dumps/orders-staging-2023-04-15T12-00-00Z'' = Some two_collections \<and>
   zips (snd (Dump example_dumper upload_denied empty_state))
     ''/tmp/mongodb-dumps/orders-staging-2023-04-15T12-00-00Z.zip'' =
     Some (map entry_of (files_of [] two_collections))"
proof -
  have g: "GenerateBackupFilename (mongoDump example_dumper) upload_denied =
     (''orders-staging-2023-04-15T12-00-00Z'',
      ''/tmp/mongodb-dumps/orders-staging-2023-04-15T12-00-00Z'',
      ''staging/2023-04-15/orders-staging-2023-04-15T12-00-00Z'')"
    by (rule GenerateBackupFilename_example) (simp_all add: upload_denied_def example_io_def)
  have h: "MkdirAll_err upload_denied = None" "Pipe_err upload_denied = None"
    "good_dump = mongodump upload_denied
       (mongodump_args (md_config (mongoDump example_dumper))
         ''/tmp/mongodb-dumps/orders-staging-2023-04-15T12-00-00Z''
         (uri_embeds_database (MongoURI (md_config (mongoDump example_dumper)))))"
    "Start_err good_dump = None" "Wait_err good_dump = None"
    by (simp_all add: upload_denied_def example_io_def good_dump_def)
  have u: "Create_err upload_denied = None \<and> readable (output_tree good_dump) \<and>
           PutObject_err upload_denied = Some ''AccessDenied''"
    by (simp add: upload_denied_def example_io_def good_dump_def two_collections_def)
  have t: "output_tree good_dump = two_collections" by (simp add: good_dump_def)
  have f: "finished upload_denied (map entry_of (files_of [] two_collections)) =
             map entry_of (files_of [] two_collections)"
    by (simp add: finished_def upload_denied_def example_io_def)
  from Dump_failure_leaves_artifacts [OF h g, of "''AccessDenied''" empty_state] u
  show ?thesis unfolding t f by simp
qed

section \<open>The compression ratio\<close>

lemma UploadFile_log_mono: "set (log st) \<subseteq> set (log (snd (UploadFile s io f k st)))"
  by (auto simp: UploadFile_def Let_def log_add_log split: option.splits)

lemma compressFile_creates:
  "compressFile io src tgt st = (None, st') \<Longrightarrow> zips st' tgt \<noteq> None"
  by (auto simp: compressFile_def split: option.splits prod.splits)

lemma Dump_from_step2_logs_ratio:
  assumes "fst (compressFile io p (p @ ''.zip'') (add_log st [Step2_start])) = None"
  shows "Compression_completed (zip_size io) (F64_div n (zip_size io))
           \<in> set (log (snd (Dump_from_step2 d io p k c n st)))"
proof -
  obtain st1 where c1: "compressFile io p (p @ ''.zip'') (add_log st [Step2_start]) = (None, st1)"
    using assms by (cases "compressFile io p (p @ ''.zip'') (add_log st [Step2_start])") auto
  then have z: "zips st1 (p @ ''.zip'') \<noteq> None" by (rule compressFile_creates)
  let ?e = "Compression_completed (zip_size io) (F64_div n (zip_size io))"
  let ?st2 = "add_log (add_log st1 [?e]) [Step3_start (k @ ''.zip'')]"
  have in2: "?e \<in> set (log ?st2)" by (simp add: log_add_log)
  obtain r st3 where u: "UploadFile (s3Client d) io (p @ ''.zip'') (k @ ''.zip'') ?st2 = (r, st3)"
    by (cases "UploadFile (s3Client d) io (p @ ''.zip'') (k @ ''.zip'') ?st2") auto
  have in3: "?e \<in> set (log st3)"
    using UploadFile_log_mono [of ?st2 "s3Client d" io "p @ ''.zip''" "k @ ''.zip''"] in2 u by auto
  show ?thesis
  proof (cases r)
    case (Some e)
    with c1 z u in3 show ?thesis
      by (auto simp: Dump_from_step2_def Let_def)
  next
    case None
    with c1 z u in3 show ?thesis
      by (auto simp: Dump_from_step2_def Let_def log_add_log RemoveAll_def Remove_def add_log_def
          split: option.splits prod.splits)
  qed
qed

text \<open>
  Claim C3, as amended. Whenever the archive stage has succeeded, \<open>Dump\<close> computes the ratio
  of the original size to the size that \<open>os.Stat\<close> reports for the container and logs
  it with the compression entry, whatever that size is: no test on the size stands before
  the division.
\<close>

theorem ratio_computed_whenever_archive_succeeds:
  assumes "fst (compressFile io p (p @ ''.zip'') (add_log st [Step2_start])) = None"
  shows "Compression_completed (zip_size io) (F64_div n (zip_size io))
           \<in> set (log (snd (Dump_from_step2 d io p k c n st)))"
  using assms by (rule Dump_from_step2_logs_ratio)

lemma compressFile_dumped_state:
  assumes "Create_err io = None"
  shows "fst (compressFile io ''/tmp/x'' (''/tmp/x'' @ ''.zip'') (add_log dumped_state [Step2_start])) = None"
proof -
  have "trees (add_log dumped_state [Step2_start]) ''/tmp/x'' = Some two_collections"
    by (simp add: add_log_def dumped_state_def)
  from compressFile_readable [OF assms this readable_two_collections]
  show ?thesis by simp
qed

theorem ratio_computed_whenever_archive_succeeds_witness:
  "Compression_completed 400 (F64_div 30 400)
     \<in> set (log (snd (Dump_from_step2 example_dumper example_io ''/tmp/x'' ''k'' 2 30 dumped_state)))"
proof -
  have c: "Create_err example_io = None" by (simp add: example_io_def)
  have z: "zip_size example_io = 400" by (simp add: example_io_def)
  from ratio_computed_whenever_archive_succeeds [OF compressFile_dumped_state [OF c], of 30 example_dumper "''k''" 2]
  show ?thesis by (simp only: z)
qed

lemma Walk_two_collections:
  "base \<noteq> [] \<Longrightarrow> Walk (Some two_collections) base count_bson (0, 0) = ((2, 30), None)"
  using Walk_count_bson [of base "[(''orders'',
           Dir [(''items.bson'', File ''0123456789''),
                (''items.metadata.json'', File ''{}''),
                (''users.bson'', File ''01234567890123456789''),
                (''users.metadata.json'', File ''{}'')])]"]
  by (simp add: two_collections_def [symmetric] collections_two_collections del: readable.simps)
    (simp add: two_collections_def)

text \<open>
  Claim C3 as stated fails: in a run whose container is reported with size zero, the
  division by that size is made and its result is logged.
\<close>

theorem ratio_division_by_zero_counterexample:
  "Compression_completed 0 (F64_div 30 0)
     \<in> set (log (snd (Dump example_dumper empty_container empty_state)))"
proof -
  let ?p = "''/tmp/mongodb-dumps/orders-staging-2023-04-15T12-00-00Z''"
  let ?k = "''staging/2023-04-15/orders-staging-2023-04-15T12-00-00Z''"
  have g: "GenerateBackupFilename (mongoDump example_dumper) empty_container =
     (''orders-staging-2023-04-15T12-00-00Z'', ?p, ?k)"
    by (rule GenerateBackupFilename_example) (simp_all add: empty_container_def example_io_def)
  have h: "MkdirAll_err empty_container = None" "Pipe_err empty_container = None"
    "good_dump = mongodump empty_container
       (mongodump_args (md_config (mongoDump example_dumper)) ?p
         (uri_embeds_database (MongoURI (md_config (mongoDump example_dumper)))))"
    "Start_err good_dump = None" "Wait_err good_dump = None"
    by (simp_all add: empty_container_def example_io_def good_dump_def)
  have t: "output_tree good_dump = two_collections" by (simp add: good_dump_def)
  have w: "Walk (Some two_collections) ?p count_bson (0, 0) = ((2, 30), None)"
    by (rule Walk_two_collections) simp
  obtain lg where d: "Dump example_dumper empty_container empty_state =
      Dump_from_step2 example_dumper empty_container ?p ?k 2 30
        (empty_state\<lparr>trees := (trees empty_state)(?p \<mapsto> two_collections), log := lg\<rparr>)"
    using Dump_reaches_step2 [OF h g, of empty_state] unfolding t w by auto
  let ?st = "empty_state\<lparr>trees := (trees empty_state)(?p \<mapsto> two_collections), log := lg\<rparr>"
  have c: "Create_err empty_container = None" and z: "zip_size empty_container = 0"
    by (simp_all add: empty_container_def example_io_def)
  have "trees (add_log ?st [Step2_start]) ?p = Some two_collections"
    by (simp add: add_log_def)
  from compressFile_readable [OF c this readable_two_collections]
  have "fst (compressFile empty_container ?p (?p @ ''.zip'') (add_log ?st [Step2_start])) = None"
    by simp
  from Dump_from_step2_logs_ratio [OF this, of 30 example_dumper ?k 2]
  show ?thesis unfolding d z .
qed

section \<open>The successful run\<close>

text \<open>
  When every step succeeds, \<open>Dump\<close> uploads the finished archive and removes both the dump
  directory and the local archive; and the statistics it reports after step 1 are those of the
  collections of the dump directory.
\<close>

lemma fields_add_log:
  "trees (add_log st es) = trees st" "zips (add_log st es) = zips st"
  "objects (add_log st es) = objects st"
  by (simp_all add: add_log_def)

lemma compressFile_log: "log (snd (compressFile io src tgt st)) = log st"
  by (simp add: compressFile_def split: option.splits prod.splits)

lemma UploadFile_success:
  assumes "zips st f = Some z" and "PutObject_err io = None"
  shows "\<exists>lg. UploadFile s io f k st = (None, st\<lparr>objects := (objects st)(k \<mapsto> z), log := lg\<rparr>)"
  using assms by (auto simp: UploadFile_def Let_def add_log_def)

lemma Dump_from_step2_success:
  assumes "Create_err io = None" and "trees st p = Some tree" and "readable tree" and "p \<noteq> []"
    and "PutObject_err io = None" and "RemoveAll_err io = None" and "Remove_err io = None"
  shows "\<exists>st'. Dump_from_step2 d io p k c n st = (None, st') \<and>
           trees st' = (trees st)(p := None) \<and> zips st' = (zips st)(p @ ''.zip'' := None) \<and>
           objects st' =
             (objects st)(k @ ''.zip'' \<mapsto> finished io (map entry_of (files_of [] tree)))"
proof -
  let ?st1 = "add_log st [Step2_start]"
  let ?z = "finished io (map entry_of (files_of [] tree))"
  let ?st2 = "?st1\<lparr>zips := (zips st)(p @ ''.zip'' \<mapsto> ?z)\<rparr>"
  have t: "trees ?st1 p = Some tree" using assms(2) by (simp add: fields_add_log)
  have c: "compressFile io p (p @ ''.zip'') ?st1 = (None, ?st2)"
    using compressFile_readable [OF assms(1) t assms(3,4), of "p @ ''.zip''"]
    by (simp add: fields_add_log)
  let ?st3 = "add_log (add_log ?st2 [Compression_completed (zip_size io) (F64_div n (zip_size io))])
                [Step3_start (k @ ''.zip'')]"
  have z: "zips ?st3 (p @ ''.zip'') = Some ?z" by (simp add: fields_add_log)
  obtain lg where u: "UploadFile (s3Client d) io (p @ ''.zip'') (k @ ''.zip'') ?st3 =
      (None, ?st3\<lparr>objects := (objects ?st3)(k @ ''.zip'' \<mapsto> ?z), log := lg\<rparr>)"
    using UploadFile_success [OF z assms(5)] by blast
  show ?thesis
    by (simp add: Dump_from_step2_def Let_def c u RemoveAll_def Remove_def assms(6,7)
        fields_add_log)
qed

lemma Dump_from_step2_log_mono:
  "set (log st) \<subseteq> set (log (snd (Dump_from_step2 d io p k c n st)))"
proof -
  let ?st1 = "add_log st [Step2_start]"
  obtain r1 st2 where c: "compressFile io p (p @ ''.zip'') ?st1 = (r1, st2)"
    by (cases "compressFile io p (p @ ''.zip'') ?st1") auto
  have l2: "log st2 = log st @ [Step2_start]"
    using compressFile_log [of io p "p @ ''.zip''" ?st1] c by (simp add: log_add_log)
  show ?thesis
  proof (cases r1)
    case (Some e)
    then show ?thesis by (auto simp: Dump_from_step2_def Let_def c l2)
  next
    case None
    let ?st3 = "add_log (add_log st2
        [if zips st2 (p @ ''.zip'') \<noteq> None
         then Compression_completed (zip_size io) (F64_div n (zip_size io))
         else Compression_completed_err (''stat '' @ (p @ ''.zip'') @ '': no such file or directory'')])
        [Step3_start (k @ ''.zip'')]"
    obtain r3 st4 where u: "UploadFile (s3Client d) io (p @ ''.zip'') (k @ ''.zip'') ?st3 = (r3, st4)"
      by (cases "UploadFile (s3Client d) io (p @ ''.zip'') (k @ ''.zip'') ?st3") auto
    have "set (log ?st3) \<subseteq> set (log st4)"
      using UploadFile_log_mono [of ?st3 "s3Client d" io "p @ ''.zip''" "k @ ''.zip''"] u by simp
    then have m: "set (log st) \<subseteq> set (log st4)" by (auto simp: log_add_log l2)
    show ?thesis
    proof (cases r3)
      case (Some e)
      with None c u m show ?thesis by (auto simp: Dump_from_step2_def Let_def split: if_splits)
    next
      case n3: None
      with None c u m show ?thesis
        by (auto simp: Dump_from_step2_def Let_def RemoveAll_def Remove_def add_log_def
            split: if_splits option.splits)
    qed
  qed
qed


lemma Dump_success_removes_artifacts:
  assumes "MkdirAll_err io = None" and "Pipe_err io = None"
    and "cmd = mongodump io (mongodump_args (md_config (mongoDump d)) path
                  (uri_embeds_database (MongoURI (md_config (mongoDump d)))))"
    and "Start_err cmd = None" and "Wait_err cmd = None"
    and "GenerateBackupFilename (mongoDump d) io = (name, path, key)"
    and "Create_err io = None" and "readable (output_tree cmd)"
    and "PutObject_err io = None" and "RemoveAll_err io = None" and "Remove_err io = None"
  shows "fst (Dump d io st) = None \<and>
         trees (snd (Dump d io st)) path = None \<and>
         zips (snd (Dump d io st)) (path @ ''.zip'') = None \<and>
         objects (snd (Dump d io st)) (key @ ''.zip'') =
           Some (finished io (map entry_of (files_of [] (output_tree cmd))))"
proof -
  obtain lg where d: "Dump d io st =
      Dump_from_step2 d io path key
        (fst (fst (Walk (Some (output_tree cmd)) path count_bson (0, 0))))
        (snd (fst (Walk (Some (output_tree cmd)) path count_bson (0, 0))))
        (st\<lparr>trees := (trees st)(path \<mapsto> output_tree cmd),
            log := lg @ [Step1_completed
              (snd (fst (Walk (Some (output_tree cmd)) path count_bson (0, 0))))
              (fst (fst (Walk (Some (output_tree cmd)) path count_bson (0, 0))))]\<rparr>)"
    using Dump_reaches_step2 [OF assms(1-6)] by blast
  have p: "path \<noteq> []"
    using assms(6) by (auto simp: GenerateBackupFilename_def Let_def Join_def split: if_splits)
  let ?st = "st\<lparr>trees := (trees st)(path \<mapsto> output_tree cmd),
            log := lg @ [Step1_completed
              (snd (fst (Walk (Some (output_tree cmd)) path count_bson (0, 0))))
              (fst (fst (Walk (Some (output_tree cmd)) path count_bson (0, 0))))]\<rparr>"
  have t: "trees ?st path = Some (output_tree cmd)" by simp
  obtain st' where r: "Dump_from_step2 d io path key
        (fst (fst (Walk (Some (output_tree cmd)) path count_bson (0, 0))))
        (snd (fst (Walk (Some (output_tree cmd)) path count_bson (0, 0)))) ?st = (None, st')"
      and "trees st' = (trees ?st)(path := None)"
      and "zips st' = (zips ?st)(path @ ''.zip'' := None)"
      and "objects st' = (objects ?st)(key @ ''.zip'' \<mapsto>
             finished io (map entry_of (files_of [] (output_tree cmd))))"
    using Dump_from_step2_success [OF assms(7) t assms(8) p assms(9-11)] by blast
  then show ?thesis unfolding d r by simp
qed

lemma Dump_reports_statistics:
  assumes "MkdirAll_err io = None" and "Pipe_err io = None"
    and "cmd = mongodump io (mongodump_args (md_config (mongoDump d)) path
                  (uri_embeds_database (MongoURI (md_config (mongoDump d)))))"
    and "Start_err cmd = None" and "Wait_err cmd = None"
    and "GenerateBackupFilename (mongoDump d) io = (name, path, key)"
    and "output_tree cmd = Dir es" and "readable (Dir es)"
  shows "Step1_completed (sum_list (map (\<lambda>f. int (length (snd f))) (collections (Dir es))))
           (int (length (collections (Dir es)))) \<in> set (log (snd (Dump d io st)))"
proof -
  have p: "path \<noteq> []"
    using assms(6) by (auto simp: GenerateBackupFilename_def Let_def Join_def split: if_splits)
  have w: "Walk (Some (output_tree cmd)) path count_bson (0, 0) =
      ((int (length (collections (Dir es))),
        sum_list (map (\<lambda>f. int (length (snd f))) (collections (Dir es)))), None)"
    unfolding assms(7) using p assms(8) by (rule Walk_count_bson)
  obtain lg where d: "Dump d io st =
      Dump_from_step2 d io path key
        (int (length (collections (Dir es))))
        (sum_list (map (\<lambda>f. int (length (snd f))) (collections (Dir es))))
        (st\<lparr>trees := (trees st)(path \<mapsto> output_tree cmd),
            log := lg @ [Step1_completed
              (sum_list (map (\<lambda>f. int (length (snd f))) (collections (Dir es))))
              (int (length (collections (Dir es))))]\<rparr>)"
    using Dump_reaches_step2 [OF assms(1-6), of st] unfolding w fst_conv snd_conv by blast
  show ?thesis
    unfolding d
    by (rule subsetD [OF Dump_from_step2_log_mono]) simp
qed

section \<open>The remote object key\<close>

lemma digit_char_digit: "is_digit (digit_char d)"
proof -
  have "d mod 10 < length ''0123456789''" by simp
  then have "''0123456789'' ! (d mod 10) \<in> set ''0123456789''" by (rule nth_mem)
  then show ?thesis by (simp only: is_digit_def digit_char_def)
qed

lemma decimal_digits: "list_all is_digit (decimal n)"
proof (induction n rule: decimal.induct)
  case (1 n)
  show ?case
  proof (cases "n < 10")
    case True
    then show ?thesis by (subst decimal.simps) (simp add: digit_char_digit)
  next
    case False
    with 1 show ?thesis by (subst decimal.simps) (simp add: digit_char_digit)
  qed
qed

lemma length_decimal_1: "n < 10 \<Longrightarrow> length (decimal n) = 1"
  by (subst decimal.simps) simp

lemma length_decimal_le2: "n < 100 \<Longrightarrow> length (decimal n) \<le> 2"
  by (subst decimal.simps) (simp add: length_decimal_1)

lemma length_decimal_le3: "n < 1000 \<Longrightarrow> length (decimal n) \<le> 3"
proof (cases "n < 10")
  case True
  then show ?thesis by (simp add: length_decimal_1)
next
  case False
  assume "n < 1000"
  then have "length (decimal (n div 10)) \<le> 2" by (intro length_decimal_le2) simp
  with False show ?thesis by (subst decimal.simps) simp
qed

lemma length_decimal_le4: "n < 10000 \<Longrightarrow> length (decimal n) \<le> 4"
proof (cases "n < 10")
  case True
  then show ?thesis by (simp add: length_decimal_1)
next
  case False
  assume "n < 10000"
  then have "length (decimal (n div 10)) \<le> 3" by (intro length_decimal_le3) simp
  with False show ?thesis by (subst decimal.simps) simp
qed

lemma appendInt_digits: "list_all is_digit (appendInt x w)"
proof -
  have "is_digit (CHR ''0'')" by (simp add: is_digit_def)
  then have "list_all is_digit (replicate (w - length (decimal x)) (CHR ''0''))"
    by (simp add: list_all_iff)
  then show ?thesis by (simp add: appendInt_def decimal_digits)
qed

lemma length_appendInt: "length (decimal x) \<le> w \<Longrightarrow> length (appendInt x w) = w"
  by (simp add: appendInt_def)

lemma is_digit_not_slash: "is_digit c \<Longrightarrow> c \<noteq> CHR ''/''"
  by (auto simp: is_digit_def)

lemma appendInt_no_slash: "CHR ''/'' \<notin> set (appendInt x w)"
  using appendInt_digits [of x w] is_digit_not_slash by (auto simp: list_all_iff)

lemma Format_date_no_slash: "CHR ''/'' \<notin> set (Format_date t)"
  by (simp add: Format_date_def appendInt_no_slash)

lemma split_at_first:
  assumes "c \<notin> set a" and "c \<notin> set a'" and "a @ c # r = a' @ c # r'"
  shows "a = a' \<and> r = r'"
proof -
  have "takeWhile (\<lambda>x. x \<noteq> c) (a @ c # r) = a" "takeWhile (\<lambda>x. x \<noteq> c) (a' @ c # r') = a'"
    using assms(1,2) by (auto simp: takeWhile_tail)
  with assms(3) have "a = a'" by simp
  with assms(3) show ?thesis by simp
qed

lemma wellformed_lengths:
  assumes "wellformed t"
  shows "length (appendInt (Year t) 4) = 4" "length (appendInt (Month t) 2) = 2"
    "length (appendInt (Day t) 2) = 2" "length (appendInt (Hour t) 2) = 2"
    "length (appendInt (Minute t) 2) = 2" "length (appendInt (Second t) 2) = 2"
  using assms
  by (auto simp: wellformed_def intro!: length_appendInt length_decimal_le2 length_decimal_le4)

lemma shape_of_parts:
  assumes "length y = 4" "length mo = 2" "length da = 2" "length h = 2" "length mi = 2" "length se = 2"
    and "list_all is_digit y" "list_all is_digit mo" "list_all is_digit da"
    and "list_all is_digit h" "list_all is_digit mi" "list_all is_digit se"
  shows "timestamp_shape (y @ ''-'' @ mo @ ''-'' @ da @ ''T'' @ h @ ''-'' @ mi @ ''-'' @ se @ ''Z'')"
  using assms by (simp add: timestamp_shape_def nth_append)

lemma Format_timestamp_shape: "wellformed t \<Longrightarrow> timestamp_shape (Format_timestamp t)"
  unfolding Format_timestamp_def
  by (intro shape_of_parts wellformed_lengths appendInt_digits)

lemma Format_timestamp_date: "wellformed t \<Longrightarrow> take 10 (Format_timestamp t) = Format_date t"
  using wellformed_lengths [of t] by (simp add: Format_timestamp_def Format_date_def)

lemma length_Format_timestamp: "wellformed t \<Longrightarrow> length (Format_timestamp t) = 20"
  using Format_timestamp_shape [of t] by (simp add: timestamp_shape_def)

lemma remote_key_eq:
  "remote_key d io =
     GetEnvironment (md_config d) ''default'' @ ''/'' @ Format_date (now_local io) @ ''/'' @
     GetDatabase (md_config d) ''all-databases'' @ ''-'' @
     GetEnvironment (md_config d) ''default'' @ ''-'' @ Format_timestamp (now_utc io) @ ''.zip''"
  by (simp add: remote_key_def GenerateBackupFilename_def Let_def)

lemma key_parts_unique:
  assumes e: "CHR ''/'' \<notin> set E" "CHR ''/'' \<notin> set E'"
    and d: "CHR ''/'' \<notin> set dt" "CHR ''/'' \<notin> set dt'"
    and l: "length ts = length ts'"
    and k: "E @ ''/'' @ dt @ ''/'' @ D @ ''-'' @ E @ ''-'' @ ts @ ''.zip'' =
            E' @ ''/'' @ dt' @ ''/'' @ D' @ ''-'' @ E' @ ''-'' @ ts' @ ''.zip''"
  shows "E = E' \<and> D = D' \<and> ts = ts'"
proof -
  from k have "E @ CHR ''/'' # (dt @ ''/'' @ D @ ''-'' @ E @ ''-'' @ ts @ ''.zip'') =
               E' @ CHR ''/'' # (dt' @ ''/'' @ D' @ ''-'' @ E' @ ''-'' @ ts' @ ''.zip'')"
    by simp
  from split_at_first [OF e this]
  have E: "E = E'" and r: "dt @ ''/'' @ D @ ''-'' @ E @ ''-'' @ ts @ ''.zip'' =
      dt' @ ''/'' @ D' @ ''-'' @ E' @ ''-'' @ ts' @ ''.zip''"
    by blast+
  from r have "dt @ CHR ''/'' # (D @ ''-'' @ E @ ''-'' @ ts @ ''.zip'') =
               dt' @ CHR ''/'' # (D' @ ''-'' @ E' @ ''-'' @ ts' @ ''.zip'')"
    by simp
  from split_at_first [OF d this]
  have "D @ ''-'' @ E @ ''-'' @ ts @ ''.zip'' = D' @ ''-'' @ E' @ ''-'' @ ts' @ ''.zip''"
    by blast
  then have "(D @ ''-'' @ E @ ''-'') @ (ts @ ''.zip'') = (D' @ ''-'' @ E @ ''-'') @ (ts' @ ''.zip'')"
    by (simp add: E)
  moreover have "length (ts @ ''.zip'') = length (ts' @ ''.zip'')" using l by simp
  ultimately have "D @ ''-'' @ E @ ''-'' = D' @ ''-'' @ E @ ''-'' \<and> ts @ ''.zip'' = ts' @ ''.zip''"
    by (metis append_eq_append_conv)
  with E show ?thesis by simp
qed

lemma Format_date_shape: "wellformed t \<Longrightarrow> date_shape (Format_date t)"
  using wellformed_lengths [of t] appendInt_digits
  by (simp add: Format_date_def date_shape_def nth_append)

text \<open>
  Claim C2, as amended. The key is \<open>{environment}/{date}/{database}-{environment}-{timestamp}.zip\<close>
  with the defaults \<open>default\<close> and \<open>all-databases\<close> for an unset environment and database,
  a date of the shape \<open>YYYY-MM-DD\<close> and, as timestamp, the reading of the clock in UTC in
  the shape \<open>YYYY-MM-DDTHH-MM-SSZ\<close>; and for environments without a \<open>/\<close>, two equal keys
  have the same environment, the same database and the same timestamp.
\<close>

theorem remote_key_form_and_parse:
  "(wellformed (now_utc io) \<and> wellformed (now_local io) \<longrightarrow>
      timestamp_shape (Format_timestamp (now_utc io)) \<and>
      (\<exists>date. date_shape date \<and>
         remote_key d io =
           GetEnvironment (md_config d) ''default'' @ ''/'' @ date @ ''/'' @
           GetDatabase (md_config d) ''all-databases'' @ ''-'' @
           GetEnvironment (md_config d) ''default'' @ ''-'' @
           Format_timestamp (now_utc io) @ ''.zip'')) \<and>
   (wellformed (now_utc io) \<and> wellformed (now_utc io') \<and>
    CHR ''/'' \<notin> set (GetEnvironment (md_config d) ''default'') \<and>
    CHR ''/'' \<notin> set (GetEnvironment (md_config d') ''default'') \<and>
    remote_key d io = remote_key d' io' \<longrightarrow>
      GetEnvironment (md_config d) ''default'' = GetEnvironment (md_config d') ''default'' \<and>
      GetDatabase (md_config d) ''all-databases'' = GetDatabase (md_config d') ''all-databases'' \<and>
      Format_timestamp (now_utc io) = Format_timestamp (now_utc io'))"
proof (intro conjI impI)
  assume w: "wellformed (now_utc io) \<and> wellformed (now_local io)"
  then show "timestamp_shape (Format_timestamp (now_utc io))"
    by (simp add: Format_timestamp_shape)
  from w have "date_shape (Format_date (now_local io))" by (simp add: Format_date_shape)
  then show "\<exists>date. date_shape date \<and>
         remote_key d io =
           GetEnvironment (md_config d) ''default'' @ ''/'' @ date @ ''/'' @
           GetDatabase (md_config d) ''all-databases'' @ ''-'' @
           GetEnvironment (md_config d) ''default'' @ ''-'' @
           Format_timestamp (now_utc io) @ ''.zip''"
    using remote_key_eq [of d io] by blast
next
  assume a: "wellformed (now_utc io) \<and> wellformed (now_utc io') \<and>
    CHR ''/'' \<notin> set (GetEnvironment (md_config d) ''default'') \<and>
    CHR ''/'' \<notin> set (GetEnvironment (md_config d') ''default'') \<and>
    remote_key d io = remote_key d' io'"
  then have l: "length (Format_timestamp (now_utc io)) = length (Format_timestamp (now_utc io'))"
    by (simp add: length_Format_timestamp)
  from a have k: "GetEnvironment (md_config d) ''default'' @ ''/'' @ Format_date (now_local io) @ ''/'' @
     GetDatabase (md_config d) ''all-databases'' @ ''-'' @
     GetEnvironment (md_config d) ''default'' @ ''-'' @ Format_timestamp (now_utc io) @ ''.zip'' =
     GetEnvironment (md_config d') ''default'' @ ''/'' @ Format_date (now_local io') @ ''/'' @
     GetDatabase (md_config d') ''all-databases'' @ ''-'' @
     GetEnvironment (md_config d') ''default'' @ ''-'' @ Format_timestamp (now_utc io') @ ''.zip''"
    by (simp only: remote_key_eq)
  from a have e: "CHR ''/'' \<notin> set (GetEnvironment (md_config d) ''default'')"
    "CHR ''/'' \<notin> set (GetEnvironment (md_config d') ''default'')" by simp_all
  from key_parts_unique [OF e Format_date_no_slash Format_date_no_slash l k]
  show "GetEnvironment (md_config d) ''default'' = GetEnvironment (md_config d') ''default''"
    and "GetDatabase (md_config d) ''all-databases'' = GetDatabase (md_config d') ''all-databases''"
    and "Format_timestamp (now_utc io) = Format_timestamp (now_utc io')"
    by simp_all
qed

lemma Format_late:
  "Format_timestamp late_utc = ''2023-04-15T23-30-00Z''"
  "Format_date late_local = ''2023-04-16''"
  by code_simp+

lemma wellformed_noon: "wellformed noon"
  by (simp add: wellformed_def noon_def)

theorem remote_key_form_and_parse_witness:
  "timestamp_shape ''2023-04-15T12-00-00Z'' \<and>
   (\<exists>date. date_shape date \<and>
      remote_key (mongoDump example_dumper) example_io =
        ''staging/'' @ date @ ''/orders-staging-2023-04-15T12-00-00Z.zip'') \<and>
   remote_key \<lparr>md_config = example_config\<lparr>TempDir := ''/var/tmp''\<rparr>\<rparr> example_io =
     remote_key (mongoDump example_dumper) example_io \<and>
   GetDatabase (example_config\<lparr>TempDir := ''/var/tmp''\<rparr>) ''all-databases'' = ''orders''"
proof -
  let ?d' = "\<lparr>md_config = example_config\<lparr>TempDir := ''/var/tmp''\<rparr>\<rparr>"
  note t = remote_key_form_and_parse [of example_io "mongoDump example_dumper" example_io ?d']
  have n: "now_utc example_io = noon" "now_local example_io = noon"
    by (simp_all add: example_io_def)
  have e: "GetEnvironment (md_config (mongoDump example_dumper)) ''default'' = ''staging''"
    "GetEnvironment (md_config ?d') ''default'' = ''staging''"
    "GetDatabase (md_config (mongoDump example_dumper)) ''all-databases'' = ''orders''"
    "GetEnvironment (example_config\<lparr>TempDir := ''/var/tmp''\<rparr>) ''default'' = ''staging''"
    by (simp_all add: GetEnvironment_def GetDatabase_def example_dumper_def example_config_def)
  have k: "remote_key ?d' example_io = remote_key (mongoDump example_dumper) example_io"
    by (simp add: remote_key_def GenerateBackupFilename_def Let_def GetEnvironment_def
        GetDatabase_def example_dumper_def example_config_def)
  have w: "wellformed (now_utc example_io) \<and> wellformed (now_local example_io)"
    using wellformed_noon by (simp add: n)
  from t w have 1: "timestamp_shape ''2023-04-15T12-00-00Z''"
    by (simp add: n Format_noon)
  from t w obtain date where "date_shape date"
    "remote_key (mongoDump example_dumper) example_io =
       GetEnvironment (md_config (mongoDump example_dumper)) ''default'' @ ''/'' @ date @ ''/'' @
       GetDatabase (md_config (mongoDump example_dumper)) ''all-databases'' @ ''-'' @
       GetEnvironment (md_config (mongoDump example_dumper)) ''default'' @ ''-'' @
       Format_timestamp (now_utc example_io) @ ''.zip''"
    by blast
  then have 2: "\<exists>date. date_shape date \<and>
      remote_key (mongoDump example_dumper) example_io =
        ''staging/'' @ date @ ''/orders-staging-2023-04-15T12-00-00Z.zip''"
    by (intro exI [of _ date]) (simp add: e n Format_noon)
  have h: "wellformed (now_utc example_io) \<and> wellformed (now_utc example_io) \<and>
      CHR ''/'' \<notin> set (GetEnvironment (md_config (mongoDump example_dumper)) ''default'') \<and>
      CHR ''/'' \<notin> set (GetEnvironment (md_config ?d') ''default'') \<and>
      remote_key (mongoDump example_dumper) example_io = remote_key ?d' example_io"
    using wellformed_noon k by (simp add: n e)
  from t h have "GetDatabase (md_config (mongoDump example_dumper)) ''all-databases'' =
      GetDatabase (md_config ?d') ''all-databases''"
    by blast
  then have 3: "GetDatabase (example_config\<lparr>TempDir := ''/var/tmp''\<rparr>) ''all-databases'' = ''orders''"
    by (simp add: e)
  from 1 2 k 3 show ?thesis by simp
qed

text \<open>
  Claim C2 as stated fails. The key does not parse back unambiguously: an environment that
  contains the separators can take over a part of the database name, and an unset
  environment gives the key of the environment \<open>default\<close>. And the date segment is taken
  from a second reading of the clock in the local zone, so half an hour before midnight
  UTC, in a zone two hours ahead, it is the next day's date.
\<close>

theorem remote_key_counterexample:
  "remote_key \<lparr>md_config = example_config\<lparr>Environment := ''a'',
        Database := ''q-a/2023-04-15/X-a/2023-04-15/q''\<rparr>\<rparr> example_io =
   remote_key \<lparr>md_config = example_config\<lparr>Environment := ''a/2023-04-15/q-a'',
        Database := ''X''\<rparr>\<rparr> example_io \<and>
   remote_key \<lparr>md_config = example_config\<lparr>Environment := []\<rparr>\<rparr> example_io =
   remote_key \<lparr>md_config = example_config\<lparr>Environment := ''default''\<rparr>\<rparr> example_io \<and>
   remote_key (mongoDump example_dumper) (example_io\<lparr>now_utc := late_utc, now_local := late_local\<rparr>) =
     ''staging/2023-04-16/orders-staging-2023-04-15T23-30-00Z.zip''"
  by (simp add: remote_key_eq GetEnvironment_def GetDatabase_def example_dumper_def
      example_config_def example_io_def Format_noon Format_late)

section \<open>The scheduler\<close>

lemma backup_loop_ticks:
  "backup_loop d ios (replicate k Tick @ evs) (n, s) =
     backup_loop d ios evs (n + k, scheduled_runs d ios n k s)"
proof (induction k arbitrary: n s)
  case 0
  show ?case by simp
next
  case (Suc k)
  obtain st lg where s: "s = (st, lg)" by (cases s) auto
  obtain r st' where D: "Dump d (ios n) st = (r, st')" by (cases "Dump d (ios n) st") auto
  show ?case by (cases r) (simp_all add: s D Suc.IH)
qed

lemma main_run_periodic:
  assumes "0 < interval" and "\<not> oneTime"
  shows "main_run d interval oneTime ios evs st = backup_loop d ios evs (1, initial_run d ios st)"
proof -
  obtain r st' where D: "Dump d (ios 0) st = (r, st')" by (cases "Dump d (ios 0) st") auto
  show ?thesis using assms by (cases r) (simp_all add: main_run_def initial_run_def D)
qed

lemma main_run_ticks_then_done:
  assumes "0 < interval" and "\<not> oneTime"
  shows "main_run d interval oneTime ios (replicate k Tick @ Done # evs) st =
           (Returned, (Suc k,
              fst (scheduled_runs d ios 1 k (initial_run d ios st)),
              snd (scheduled_runs d ios 1 k (initial_run d ios st)) @ [Shutting_down]))"
proof -
  obtain st' lg where s: "scheduled_runs d ios (Suc 0) k (initial_run d ios st) = (st', lg)"
    by (cases "scheduled_runs d ios (Suc 0) k (initial_run d ios st)") auto
  have "main_run d interval oneTime ios (replicate k Tick @ Done # evs) st =
          backup_loop d ios (Done # evs) (1 + k, scheduled_runs d ios 1 k (initial_run d ios st))"
    by (simp only: main_run_periodic [OF assms] backup_loop_ticks)
  then show ?thesis by (simp add: s)
qed

lemma main_run_ticks:
  assumes "0 < interval" and "\<not> oneTime"
  shows "main_run d interval oneTime ios (replicate k Tick) st =
           (Waiting, (Suc k, scheduled_runs d ios 1 k (initial_run d ios st)))"
proof -
  have "main_run d interval oneTime ios (replicate k Tick @ []) st =
          backup_loop d ios [] (1 + k, scheduled_runs d ios 1 k (initial_run d ios st))"
    by (simp only: main_run_periodic [OF assms] backup_loop_ticks)
  then show ?thesis by simp
qed

text \<open>
  Claim C9, as amended. With a positive interval and the one-time flag unset, the scheduler
  runs the pipeline once at the start and once for every tick it receives, each run from
  the state the one before left; the error of a failed run is logged and the loop goes on.
  It returns when the context is cancelled (after \<open>k\<close> ticks it has made \<open>k + 1\<close> runs), and
  until then it is waiting for the next event.
\<close>

theorem periodic_mode_runs_on_every_tick:
  assumes "0 < interval" and "\<not> oneTime"
  shows "main_run d interval oneTime ios (replicate k Tick @ Done # evs) st =
           (Returned, (Suc k,
              fst (scheduled_runs d ios 1 k (initial_run d ios st)),
              snd (scheduled_runs d ios 1 k (initial_run d ios st)) @ [Shutting_down])) \<and>
         main_run d interval oneTime ios (replicate k Tick) st =
           (Waiting, (Suc k, scheduled_runs d ios 1 k (initial_run d ios st)))"
  using main_run_ticks_then_done [OF assms] main_run_ticks [OF assms] by simp

theorem periodic_mode_runs_on_every_tick_witness:
  "fst (main_run example_dumper 3600000000000 False (\<lambda>n. upload_denied) [Tick, Tick, Done] empty_state) =
     Returned \<and>
   fst (snd (main_run example_dumper 3600000000000 False (\<lambda>n. upload_denied) [Tick, Tick, Done]
     empty_state)) = 3 \<and>
   fst (main_run example_dumper 3600000000000 False (\<lambda>n. upload_denied) [Tick, Tick] empty_state) =
     Waiting"
proof -
  have r: "[Tick, Tick, Done] = replicate 2 Tick @ Done # []" "[Tick, Tick] = replicate 2 Tick"
    by (simp_all add: numeral_2_eq_2)
  have h: "(0::int) < 3600000000000" "\<not> False" by simp_all
  from periodic_mode_runs_on_every_tick [OF h, of example_dumper "\<lambda>n. upload_denied" 2 "[]" empty_state]
  show ?thesis unfolding r by simp
qed

text \<open>
  Claim C9 as stated fails for the non-zero intervals below zero: the periodic branch is
  entered and \<open>time.NewTicker\<close> panics before any run.
\<close>

theorem negative_interval_counterexample:
  "main_run example_dumper (- 3600000000000) False (\<lambda>n. example_io) [Tick, Done] empty_state =
     (Panicked ''non-positive interval for NewTicker'', (0, empty_state, [Starting_periodic]))"
  by (simp add: main_run_def)

end
